theory Spec2Isabelle
  imports Main "HOL-Library.Word" "HOL-Library.List_Lexorder" "HOL-Library.Multiset"
begin

section \<open>Strings of the host language\<close>

text \<open>
  A JavaScript string is a sequence of 16-bit code units. Comparing two strings with
  \<open>===\<close> compares the sequences, the default \<open>Array.prototype.sort\<close> orders strings
  lexicographically by code unit, and \<open>encodeURIComponent\<close> reads surrogate pairs, so
  the model keeps the code units: a string is a list of 16-bit words, ordered
  lexicographically. \<open>js\<close> turns an ASCII literal of the theory into such a string.
\<close>

type_synonym jstring = "16 word list"

definition js :: "string \<Rightarrow> jstring" where
  "js s = map (\<lambda>c. of_nat (of_char c)) s"

text \<open>
  \<open>String.prototype.trim\<close> removes the WhiteSpace and LineTerminator code points of
  ECMA-262 from both ends: TAB, LF, VT, FF, CR, SP, NBSP, U+1680, U+2000 to U+200A,
  U+2028, U+2029, U+202F, U+205F, U+3000 and U+FEFF.
\<close>

definition isWhiteSpace :: "16 word \<Rightarrow> bool" where
  "isWhiteSpace c \<longleftrightarrow>
     (9 \<le> c \<and> c \<le> 13) \<or> c = 32 \<or> c = 160 \<or> c = 5760 \<or>
     (8192 \<le> c \<and> c \<le> 8202) \<or> c = 8232 \<or> c = 8233 \<or> c = 8239 \<or>
     c = 8287 \<or> c = 12288 \<or> c = 65279"

definition trim :: "jstring \<Rightarrow> jstring" where
  "trim s = rev (dropWhile isWhiteSpace (rev (dropWhile isWhiteSpace s)))"

section \<open>RDF terms, quads and the store\<close>

text \<open>
  The terms of the N3 library carry a \<open>termType\<close> and a \<open>value\<close>; a literal also has
  a language tag and a datatype IRI. A quad has four terms. The library's \<open>Store\<close> is
  modelled by the list of its quads in the order in which \<open>getQuads\<close> enumerates
  them; \<open>getQuads\<close> with a pattern returns the matching quads in that order (a
  \<open>null\<close> argument, here \<open>None\<close>, matches every term).
\<close>

datatype rdfterm =
    NamedNode jstring
  | BlankNode jstring
  | Literal jstring jstring jstring
  | Variable jstring
  | DefaultGraph

record quad =
  subject :: rdfterm
  predicate :: rdfterm
  object :: rdfterm
  graph :: rdfterm

type_synonym Store = "quad list"

definition matches :: "rdfterm option \<Rightarrow> rdfterm \<Rightarrow> bool" where
  "matches pat t = (case pat of None \<Rightarrow> True | Some u \<Rightarrow> u = t)"

definition getQuads ::
  "Store \<Rightarrow> rdfterm option \<Rightarrow> rdfterm option \<Rightarrow> rdfterm option \<Rightarrow> rdfterm option \<Rightarrow> quad list"
where
  "getQuads store s p ob g =
     filter (\<lambda>q. matches s (subject q) \<and> matches p (predicate q) \<and>
                 matches ob (object q) \<and> matches g (graph q)) store"

section \<open>Term classifier (terms.ts)\<close>

definition RDF :: jstring where
  "RDF = js ''http://www.w3.org/1999/02/22-rdf-syntax-ns#''"

definition RDFS :: jstring where
  "RDFS = js ''http://www.w3.org/2000/01/rdf-schema#''"

definition OWL :: jstring where
  "OWL = js ''http://www.w3.org/2002/07/owl#''"

definition SKOS :: jstring where
  "SKOS = js ''http://www.w3.org/2004/02/skos/core#''"

definition DCT :: jstring where
  "DCT = js ''http://purl.org/dc/terms/''"

definition rdfType :: rdfterm where
  "rdfType = NamedNode (RDF @ js ''type'')"

text \<open>
  The three \<open>Set\<close> constants of the module, as the lists of their elements in the
  order the source writes them; \<open>Set.has\<close> is membership in the list.
\<close>

definition CLASS_TYPES :: "jstring list" where
  "CLASS_TYPES = [OWL @ js ''Class'', RDFS @ js ''Class'']"

definition PROPERTY_TYPES :: "jstring list" where
  "PROPERTY_TYPES =
     [RDF @ js ''Property'',
      OWL @ js ''ObjectProperty'',
      OWL @ js ''DatatypeProperty'',
      OWL @ js ''AnnotationProperty'',
      OWL @ js ''FunctionalProperty'',
      OWL @ js ''InverseFunctionalProperty'',
      OWL @ js ''TransitiveProperty'',
      OWL @ js ''SymmetricProperty'',
      OWL @ js ''AsymmetricProperty'',
      OWL @ js ''ReflexiveProperty'',
      OWL @ js ''IrreflexiveProperty'']"

definition DEF_PREDICATES :: "jstring list" where
  "DEF_PREDICATES =
     [RDF @ js ''type'',
      RDFS @ js ''label'',
      RDFS @ js ''comment'',
      RDFS @ js ''isDefinedBy'',
      RDFS @ js ''seeAlso'',
      RDFS @ js ''subClassOf'',
      RDFS @ js ''subPropertyOf'',
      RDFS @ js ''domain'',
      RDFS @ js ''range'',
      OWL @ js ''equivalentClass'',
      OWL @ js ''equivalentProperty'',
      OWL @ js ''inverseOf'',
      OWL @ js ''deprecated'',
      SKOS @ js ''prefLabel'',
      SKOS @ js ''altLabel'',
      SKOS @ js ''definition'',
      SKOS @ js ''scopeNote'',
      SKOS @ js ''example'',
      DCT @ js ''title'',
      DCT @ js ''description'']"

fun isNamedNodeIri :: "rdfterm \<Rightarrow> bool" where
  "isNamedNodeIri (NamedNode v) = True"
| "isNamedNodeIri t = False"

fun termValue :: "rdfterm \<Rightarrow> jstring" where
  "termValue (NamedNode v) = v"
| "termValue (BlankNode v) = v"
| "termValue (Literal v l d) = v"
| "termValue (Variable v) = v"
| "termValue DefaultGraph = []"

fun litValue :: "rdfterm \<Rightarrow> jstring option" where
  "litValue (Literal v l d) = Some v"
| "litValue t = None"

text \<open>
  The loop of \<open>pickFirstLiteral\<close> over the quads of one subject and predicate: the
  first literal whose value is not empty and not blank once trimmed is returned, trimmed.
\<close>

fun pickLoop :: "quad list \<Rightarrow> jstring option" where
  "pickLoop [] = None"
| "pickLoop (q # qs) =
     (case litValue (object q) of
        None \<Rightarrow> pickLoop qs
      | Some v \<Rightarrow> if v \<noteq> [] \<and> trim v \<noteq> [] then Some (trim v) else pickLoop qs)"

definition pickFirstLiteral :: "Store \<Rightarrow> jstring \<Rightarrow> jstring \<Rightarrow> jstring option" where
  "pickFirstLiteral store subjIri predicateIri =
     pickLoop (getQuads store (Some (NamedNode subjIri)) (Some (NamedNode predicateIri)) None None)"

text \<open>The operator \<open>??\<close> on a value that is a string or \<open>null\<close>.\<close>

definition orElse :: "'a option \<Rightarrow> 'a option \<Rightarrow> 'a option" where
  "orElse a b = (case a of None \<Rightarrow> b | Some x \<Rightarrow> Some x)"

record TermSummary =
  label :: "jstring option"
  description :: "jstring option"

definition extractTermSummary :: "Store \<Rightarrow> jstring \<Rightarrow> TermSummary" where
  "extractTermSummary store termIri =
     \<lparr> label =
         orElse (pickFirstLiteral store termIri (SKOS @ js ''prefLabel''))
        (orElse (pickFirstLiteral store termIri (RDFS @ js ''label''))
        (orElse (pickFirstLiteral store termIri (DCT @ js ''title'')) None)),
       description =
         orElse (pickFirstLiteral store termIri (SKOS @ js ''definition''))
        (orElse (pickFirstLiteral store termIri (RDFS @ js ''comment''))
        (orElse (pickFirstLiteral store termIri (DCT @ js ''description''))
        (orElse (pickFirstLiteral store termIri (SKOS @ js ''scopeNote'')) None))) \<rparr>"

text \<open>
  A JavaScript \<open>Set\<close> of strings keeps its elements in insertion order and ignores
  the insertion of an element it has: \<open>setAdd\<close>. \<open>Array.from(set).sort()\<close> then
  sorts the elements by code units.
\<close>

definition setAdd :: "'a \<Rightarrow> 'a list \<Rightarrow> 'a list" where
  "setAdd x xs = (if x \<in> set xs then xs else xs @ [x])"

record ClassesAndProperties =
  classes :: "jstring list"
  properties :: "jstring list"

fun classifyLoop :: "quad list \<Rightarrow> jstring list \<times> jstring list \<Rightarrow> jstring list \<times> jstring list" where
  "classifyLoop [] acc = acc"
| "classifyLoop (q # qs) (cs, ps) =
     (if \<not> isNamedNodeIri (subject q) \<or> \<not> isNamedNodeIri (object q) then classifyLoop qs (cs, ps)
      else classifyLoop qs
        (if termValue (object q) \<in> set CLASS_TYPES then setAdd (termValue (subject q)) cs else cs,
         if termValue (object q) \<in> set PROPERTY_TYPES then setAdd (termValue (subject q)) ps else ps))"

definition findClassesAndProperties :: "Store \<Rightarrow> ClassesAndProperties" where
  "findClassesAndProperties store =
     (case classifyLoop (getQuads store None (Some rdfType) None None) ([], []) of
        (cs, ps) \<Rightarrow> \<lparr> classes = sort cs, properties = sort ps \<rparr>)"

text \<open>
  The priority order in the words of the specification, to compare the code with: the
  literal values of a subject under one predicate in the order of the store, the first
  of them that is not blank (trimmed), and the first candidate predicate that has one.
\<close>

definition literalsOf :: "Store \<Rightarrow> jstring \<Rightarrow> jstring \<Rightarrow> jstring list" where
  "literalsOf store s p =
     List.map_filter (\<lambda>q. litValue (object q))
       (filter (\<lambda>q. subject q = NamedNode s \<and> predicate q = NamedNode p) store)"

definition firstNonBlank :: "Store \<Rightarrow> jstring \<Rightarrow> jstring \<Rightarrow> jstring option" where
  "firstNonBlank store s p =
     (case filter (\<lambda>v. trim v \<noteq> []) (literalsOf store s p) of
        [] \<Rightarrow> None
      | v # vs \<Rightarrow> Some (trim v))"

fun firstSome :: "'a option list \<Rightarrow> 'a option" where
  "firstSome [] = None"
| "firstSome (None # xs) = firstSome xs"
| "firstSome (Some x # xs) = Some x"

definition LABEL_PREDICATES :: "jstring list" where
  "LABEL_PREDICATES = [SKOS @ js ''prefLabel'', RDFS @ js ''label'', DCT @ js ''title'']"

definition DESCRIPTION_PREDICATES :: "jstring list" where
  "DESCRIPTION_PREDICATES =
     [SKOS @ js ''definition'', RDFS @ js ''comment'', DCT @ js ''description'',
      SKOS @ js ''scopeNote'']"

section \<open>Errors\<close>

text \<open>
  A thrown value is either an \<open>Error\<close> object with its message (a \<open>URIError\<close> is
  one), or some other value, kept as the string \<open>String(e)\<close> would give. The
  expression \<open>e instanceof Error ? e.message : String(e)\<close> is \<open>errorMessage\<close>.
\<close>

datatype jserror = Error jstring | URIError jstring | Thrown jstring

fun errorMessage :: "jserror \<Rightarrow> jstring" where
  "errorMessage (Error m) = m"
| "errorMessage (URIError m) = m"
| "errorMessage (Thrown s) = s"

section \<open>HTTP helpers (http.ts)\<close>

text \<open>
  \<open>contentTypeBase\<close> keeps what stands before the first \<open>;\<close>, trimmed and
  lower-cased. \<open>String.prototype.toLowerCase\<close> follows the Unicode case mappings, which
  are not modelled: the function is a parameter, and \<open>asciiLowerCase\<close> below is what
  it computes on ASCII strings.
\<close>

definition contentTypeBase :: "(jstring \<Rightarrow> jstring) \<Rightarrow> jstring option \<Rightarrow> jstring option" where
  "contentTypeBase toLowerCase ct =
     (case ct of
        None \<Rightarrow> None
      | Some s \<Rightarrow> if s = [] then None else Some (toLowerCase (trim (takeWhile (\<lambda>c. c \<noteq> 59) s))))"

definition asciiLowerCase :: "jstring \<Rightarrow> jstring" where
  "asciiLowerCase s = map (\<lambda>c. if 65 \<le> c \<and> c \<le> 90 then c + 32 else c) s"

text \<open>
  \<open>urlExt\<close> matches \<open>/\.([a-z0-9]+)(?:\?|#|$)/i\<close> and lower-cases the group of the
  leftmost match. At a dot the greedy group takes the whole run of ASCII letters and
  digits (without the \<open>u\<close> flag no other code unit matches the class), and a shorter
  run cannot match, since the code unit after it would be a letter or digit: the dot
  matches exactly when the run is not empty and is followed by \<open>?\<close>, \<open>#\<close> or the
  end of the string.
\<close>

definition isAlnum :: "16 word \<Rightarrow> bool" where
  "isAlnum c \<longleftrightarrow> (48 \<le> c \<and> c \<le> 57) \<or> (65 \<le> c \<and> c \<le> 90) \<or> (97 \<le> c \<and> c \<le> 122)"

fun extMatch :: "jstring \<Rightarrow> jstring option" where
  "extMatch [] = None"
| "extMatch (c # cs) =
     (if c = 46 \<and> takeWhile isAlnum cs \<noteq> [] \<and>
         (case dropWhile isAlnum cs of [] \<Rightarrow> True | d # ds \<Rightarrow> d = 63 \<or> d = 35)
      then Some (takeWhile isAlnum cs)
      else extMatch cs)"

definition urlExt :: "(jstring \<Rightarrow> jstring) \<Rightarrow> jstring \<Rightarrow> jstring" where
  "urlExt toLowerCase url = toLowerCase (case extMatch url of None \<Rightarrow> [] | Some m \<Rightarrow> m)"

section \<open>Format detection and conversion (rdf.ts)\<close>

datatype N3Format = Turtle | N3 | NTriples | TriG

fun formatName :: "N3Format \<Rightarrow> jstring" where
  "formatName Turtle = js ''turtle''"
| "formatName N3 = js ''n3''"
| "formatName NTriples = js ''ntriples''"
| "formatName TriG = js ''trig''"

definition n3FormatFor :: "(jstring \<Rightarrow> jstring) \<Rightarrow> jstring option \<Rightarrow> jstring \<Rightarrow> N3Format option" where
  "n3FormatFor toLowerCase contentType sourceUrl =
     (let ct = contentTypeBase toLowerCase contentType in
      if ct = Some (js ''text/turtle'') \<or> ct = Some (js ''application/x-turtle'') then Some Turtle
      else if ct = Some (js ''text/n3'') \<or> ct = Some (js ''text/rdf+n3'') then Some N3
      else if ct = Some (js ''application/n-triples'') then Some NTriples
      else if ct = Some (js ''application/trig'') \<or> ct = Some (js ''text/trig'') then Some TriG
      else
        let ext = urlExt toLowerCase sourceUrl in
        if ext = js ''ttl'' then Some Turtle
        else if ext = js ''n3'' then Some N3
        else if ext = js ''nt'' then Some NTriples
        else if ext = js ''trig'' then Some TriG
        else if ct = Some (js ''application/rdf+xml'') \<or> ext = js ''rdf'' \<or>
                ext = js ''owl'' \<or> ext = js ''xml'' then None
        else if ct = Some (js ''application/ld+json'') \<or> ext = js ''jsonld'' \<or>
                ext = js ''json'' then None
        else Some Turtle)"

text \<open>
  The N3 parser and writer are the library's: \<open>n3parse format baseIRI text\<close> is the
  store filled with the quads \<open>Parser.parse\<close> returns, or the error it throws, and
  \<open>n3write quads\<close> is the Turtle text of the writer. With the case mapping they form
  the part of the host that conversion uses.
\<close>

record n3lib =
  toLowerCase :: "jstring \<Rightarrow> jstring"
  n3parse :: "N3Format \<Rightarrow> jstring \<Rightarrow> jstring \<Rightarrow> jserror + Store"
  n3write :: "quad list \<Rightarrow> jstring"

datatype ParseResult = ParseOk Store jstring | ParseFailed jstring

definition parseAndSerializeToTurtle ::
  "'a n3lib_scheme \<Rightarrow> jstring \<Rightarrow> jstring option \<Rightarrow> jstring \<Rightarrow> jstring \<Rightarrow> ParseResult"
where
  "parseAndSerializeToTurtle lib inputText inputContentType baseIRI sourceUrl =
     (case n3FormatFor (toLowerCase lib) inputContentType sourceUrl of
        None \<Rightarrow>
          ParseFailed (js ''Unsupported format: '' @
            (case inputContentType of None \<Rightarrow> js ''unknown'' | Some c \<Rightarrow> c) @
            js '' ('' @ sourceUrl @ js '')'')
      | Some format \<Rightarrow>
          (case n3parse lib format baseIRI inputText of
             Inl e \<Rightarrow>
               ParseFailed (js ''Parse failed ('' @ formatName format @ js ''): '' @ errorMessage e)
           | Inr store \<Rightarrow> ParseOk store (n3write lib (getQuads store None None None None))))"

section \<open>Path segments (encode.ts)\<close>

text \<open>
  \<open>encodeURIComponent\<close> and \<open>decodeURIComponent\<close> as ECMA-262 defines them (Encode
  and Decode, with the unreserved set of letters, digits and \<open>- _ . ! ~ * ' ( )\<close>, and
  an empty reserved set). Encode reads the string by code points: a code unit that is
  not unreserved is written as the percent-escaped octets of the UTF-8 form of its code
  point, and a surrogate without its partner throws a \<open>URIError\<close>. Decode reads
  \<open>%XX\<close> groups, takes as many continuation groups as the first octet announces, and
  throws unless the octets are the UTF-8 form of a code point.
\<close>

definition uriMalformed :: jserror where
  "uriMalformed = URIError (js ''URI malformed'')"

definition isUnreserved :: "16 word \<Rightarrow> bool" where
  "isUnreserved c \<longleftrightarrow>
     isAlnum c \<or> c = 45 \<or> c = 95 \<or> c = 46 \<or> c = 33 \<or> c = 126 \<or> c = 42 \<or>
     c = 39 \<or> c = 40 \<or> c = 41"

definition isHighSurrogate :: "16 word \<Rightarrow> bool" where
  "isHighSurrogate c \<longleftrightarrow> 55296 \<le> c \<and> c \<le> 56319"

definition isLowSurrogate :: "16 word \<Rightarrow> bool" where
  "isLowSurrogate c \<longleftrightarrow> 56320 \<le> c \<and> c \<le> 57343"

definition pairCodePoint :: "16 word \<Rightarrow> 16 word \<Rightarrow> nat" where
  "pairCodePoint hi lo = (unat hi - 55296) * 1024 + (unat lo - 56320) + 65536"

definition utf8 :: "nat \<Rightarrow> nat list" where
  "utf8 cp =
     (if cp < 128 then [cp]
      else if cp < 2048 then [192 + cp div 64, 128 + cp mod 64]
      else if cp < 65536 then [224 + cp div 4096, 128 + (cp div 64) mod 64, 128 + cp mod 64]
      else [240 + cp div 262144, 128 + (cp div 4096) mod 64, 128 + (cp div 64) mod 64,
            128 + cp mod 64])"

definition hexDigit :: "nat \<Rightarrow> 16 word" where
  "hexDigit n = of_nat (if n < 10 then 48 + n else 55 + n)"

definition pctOctet :: "nat \<Rightarrow> jstring" where
  "pctOctet b = [37, hexDigit (b div 16), hexDigit (b mod 16)]"

definition pctOctets :: "nat list \<Rightarrow> jstring" where
  "pctOctets bs = concat (map pctOctet bs)"

fun encodeURIComponent :: "jstring \<Rightarrow> jserror + jstring" where
  "encodeURIComponent [] = Inr []"
| "encodeURIComponent (c # cs) =
     (if isUnreserved c then
        (case encodeURIComponent cs of Inl e \<Rightarrow> Inl e | Inr r \<Rightarrow> Inr (c # r))
      else if isLowSurrogate c then Inl uriMalformed
      else if isHighSurrogate c then
        (case cs of
           [] \<Rightarrow> Inl uriMalformed
         | d # ds \<Rightarrow>
             if isLowSurrogate d then
               (case encodeURIComponent ds of
                  Inl e \<Rightarrow> Inl e
                | Inr r \<Rightarrow> Inr (pctOctets (utf8 (pairCodePoint c d)) @ r))
             else Inl uriMalformed)
      else
        (case encodeURIComponent cs of
           Inl e \<Rightarrow> Inl e
         | Inr r \<Rightarrow> Inr (pctOctets (utf8 (unat c)) @ r)))"

definition hexVal :: "16 word \<Rightarrow> nat option" where
  "hexVal c =
     (if 48 \<le> c \<and> c \<le> 57 then Some (unat c - 48)
      else if 65 \<le> c \<and> c \<le> 70 then Some (unat c - 55)
      else if 97 \<le> c \<and> c \<le> 102 then Some (unat c - 87)
      else None)"

fun octetAt :: "jstring \<Rightarrow> nat option" where
  "octetAt (a # b # rest) =
     (case hexVal a of
        None \<Rightarrow> None
      | Some x \<Rightarrow> (case hexVal b of None \<Rightarrow> None | Some y \<Rightarrow> Some (16 * x + y)))"
| "octetAt s = None"

fun continuation :: "nat \<Rightarrow> jstring \<Rightarrow> nat list option" where
  "continuation 0 s = Some []"
| "continuation (Suc n) [] = None"
| "continuation (Suc n) (c # s) =
     (if c = 37 then
        (case octetAt s of
           None \<Rightarrow> None
         | Some b \<Rightarrow>
             (case continuation n (drop 2 s) of None \<Rightarrow> None | Some bs \<Rightarrow> Some (b # bs)))
      else None)"

definition leadingOnes :: "nat \<Rightarrow> nat" where
  "leadingOnes b =
     (if b < 128 then 0 else if b < 192 then 1 else if b < 224 then 2
      else if b < 240 then 3 else if b < 248 then 4 else 5)"

definition isContinuationOctet :: "nat \<Rightarrow> bool" where
  "isContinuationOctet b \<longleftrightarrow> 128 \<le> b \<and> b < 192"

definition scalarFrom :: "nat \<Rightarrow> nat \<Rightarrow> nat option" where
  "scalarFrom least cp =
     (if least \<le> cp \<and> cp < 1114112 \<and> \<not> (55296 \<le> cp \<and> cp < 57344) then Some cp else None)"

fun utf8decode :: "nat list \<Rightarrow> nat option" where
  "utf8decode [b0, b1] =
     (if isContinuationOctet b1
      then scalarFrom 128 ((b0 - 192) * 64 + (b1 - 128)) else None)"
| "utf8decode [b0, b1, b2] =
     (if isContinuationOctet b1 \<and> isContinuationOctet b2
      then scalarFrom 2048 ((b0 - 224) * 4096 + (b1 - 128) * 64 + (b2 - 128)) else None)"
| "utf8decode [b0, b1, b2, b3] =
     (if isContinuationOctet b1 \<and> isContinuationOctet b2 \<and> isContinuationOctet b3
      then scalarFrom 65536
             ((b0 - 240) * 262144 + (b1 - 128) * 4096 + (b2 - 128) * 64 + (b3 - 128))
      else None)"
| "utf8decode bs = None"

definition utf16 :: "nat \<Rightarrow> jstring" where
  "utf16 cp =
     (if cp < 65536 then [of_nat cp]
      else [of_nat ((cp - 65536) div 1024 + 55296), of_nat ((cp - 65536) mod 1024 + 56320)])"

function decodeURIComponent :: "jstring \<Rightarrow> jserror + jstring" where
  "decodeURIComponent [] = Inr []"
| "decodeURIComponent (c # cs) =
     (if c \<noteq> 37 then
        (case decodeURIComponent cs of Inl e \<Rightarrow> Inl e | Inr r \<Rightarrow> Inr (c # r))
      else
        (case octetAt cs of
           None \<Rightarrow> Inl uriMalformed
         | Some b \<Rightarrow>
             if leadingOnes b = 0 then
               (case decodeURIComponent (drop 2 cs) of
                  Inl e \<Rightarrow> Inl e
                | Inr r \<Rightarrow> Inr (of_nat b # r))
             else if leadingOnes b = 1 \<or> leadingOnes b > 4 then Inl uriMalformed
             else
               (case continuation (leadingOnes b - 1) (drop 2 cs) of
                  None \<Rightarrow> Inl uriMalformed
                | Some bs \<Rightarrow>
                    (case utf8decode (b # bs) of
                       None \<Rightarrow> Inl uriMalformed
                     | Some cp \<Rightarrow>
                         (case decodeURIComponent (drop (3 * leadingOnes b - 1) cs) of
                            Inl e \<Rightarrow> Inl e
                          | Inr r \<Rightarrow> Inr (utf16 cp @ r))))))"
  by pat_completeness auto
termination
  by (relation "measure length") auto

definition encPrefixSegment :: "jstring \<Rightarrow> jserror + jstring" where
  "encPrefixSegment x = encodeURIComponent x"

definition encUriSegment :: "jstring \<Rightarrow> jserror + jstring" where
  "encUriSegment x = encodeURIComponent x"

section \<open>The host\<close>

text \<open>
  What the program takes from outside itself, beyond the N3 library: \<open>Date.parse\<close>
  (\<open>None\<close> is \<open>NaN\<close>; every other result is a whole number of milliseconds),
  the answer of \<open>fetchJson\<close> on a registry info URL (the parsed JSON, or the error
  thrown for a failed request, a status that is not ok or a body that is not JSON), the
  answer of \<open>fetch\<close> on a vocabulary file URL, the clock, and
  \<open>String.prototype.localeCompare\<close>.
\<close>

record LovInfoVersion =
  v_fileURL :: "jstring option"
  v_issued :: "jstring option"

record LovInfo =
  versions :: "LovInfoVersion list option"

record Response =
  res_ok :: bool
  res_status :: int
  res_contentType :: "jstring option"
  res_url :: jstring
  res_text :: "jserror + jstring"

record host = n3lib +
  Date_parse :: "jstring \<Rightarrow> int option"
  fetchJson :: "jstring \<Rightarrow> jserror + LovInfo"
  fetch :: "jstring \<Rightarrow> jserror + Response"
  now :: jstring
  localeCompare :: "jstring \<Rightarrow> jstring \<Rightarrow> int"

text \<open>
  \<open>Array.prototype.sort\<close> with a comparator is stable: an insertion sort that puts an
  element before the first one it does not follow (\<open>cmp x y \<le> 0\<close>) keeps equal
  elements in their order.
\<close>

fun insertBy :: "('a \<Rightarrow> 'a \<Rightarrow> int) \<Rightarrow> 'a \<Rightarrow> 'a list \<Rightarrow> 'a list" where
  "insertBy cmp x [] = [x]"
| "insertBy cmp x (y # ys) = (if cmp x y \<le> 0 then x # y # ys else y # insertBy cmp x ys)"

definition sortBy :: "('a \<Rightarrow> 'a \<Rightarrow> int) \<Rightarrow> 'a list \<Rightarrow> 'a list" where
  "sortBy cmp xs = foldr (insertBy cmp) xs []"

section \<open>Version resolver (lov.ts)\<close>

text \<open>
  An entry of the registry's answer is declared as
  \<open>{fileURL?: string | null; issued: string}\<close>; a field that is absent or \<open>null\<close>,
  or an \<open>issued\<close> that is not a string, is \<open>None\<close>. A string is truthy when it is
  not empty.
\<close>

record Version =
  fileURL :: jstring
  issued :: jstring

record Candidate = Version +
  issuedMs :: "int option"

definition LOV_INFO_URL :: "jstring \<Rightarrow> jserror + jstring" where
  "LOV_INFO_URL prefix =
     (case encodeURIComponent prefix of
        Inl e \<Rightarrow> Inl e
      | Inr p \<Rightarrow> Inr (js ''https://lov.linkeddata.es/dataset/lov/api/v2/vocabulary/info?vocab='' @ p))"

definition parseIssuedMs :: "'a host_scheme \<Rightarrow> jstring \<Rightarrow> int option" where
  "parseIssuedMs h s = Date_parse h s"

definition candidatesOf :: "'a host_scheme \<Rightarrow> LovInfo \<Rightarrow> Candidate list" where
  "candidatesOf h info =
     filter (\<lambda>x. issuedMs x \<noteq> None)
       (map (\<lambda>v. \<lparr> fileURL = the (v_fileURL v), issued = the (v_issued v),
                    issuedMs = parseIssuedMs h (the (v_issued v)) \<rparr>)
          (filter (\<lambda>v. (case v_fileURL v of None \<Rightarrow> False | Some f \<Rightarrow> f \<noteq> []) \<and>
                        (case v_issued v of None \<Rightarrow> False | Some i \<Rightarrow> i \<noteq> []))
             (case versions info of None \<Rightarrow> [] | Some vs \<Rightarrow> vs)))"

text \<open>
  The comparator \<open>(a, b) => b.issuedMs - a.issuedMs\<close>; a difference that is
  \<open>NaN\<close> counts as 0 in a sort.
\<close>

definition byIssuedDesc :: "Candidate \<Rightarrow> Candidate \<Rightarrow> int" where
  "byIssuedDesc a b =
     (case issuedMs b of
        None \<Rightarrow> 0
      | Some mb \<Rightarrow> (case issuedMs a of None \<Rightarrow> 0 | Some ma \<Rightarrow> mb - ma))"

definition extractLatestVersion :: "'a host_scheme \<Rightarrow> jstring \<Rightarrow> jserror + Version option" where
  "extractLatestVersion h prefix =
     (case LOV_INFO_URL prefix of
        Inl e \<Rightarrow> Inl e
      | Inr url \<Rightarrow>
          (case fetchJson h url of
             Inl e \<Rightarrow> Inl e
           | Inr info \<Rightarrow>
               (let candidates = candidatesOf h info in
                if length candidates = 0 then Inr None
                else
                  (case sortBy byIssuedDesc candidates of
                     [] \<Rightarrow> Inr None
                   | c # cs \<Rightarrow> Inr (Some \<lparr> fileURL = fileURL c, issued = issued c \<rparr>)))))"

section \<open>Records of the pipeline (pipeline.ts, terms.ts)\<close>

text \<open>
  Fields that several object types of the source share (\<open>prefix\<close>, \<open>ok\<close>,
  \<open>status\<close>, ...) carry the name of their type's usual variable as a prefix:
  \<open>fr_\<close> for the answer of \<open>fetchText\<close>, \<open>meta_\<close> for \<open>Meta\<close>, \<open>r_\<close> for
  \<open>ResultItem\<close>, \<open>cv_\<close> for the \<open>convert\<close> object of a \<open>Meta\<close>. An optional or
  nullable field is an option.
\<close>

record VocabItem =
  prefix :: jstring
  uri :: jstring
  namespace :: "jstring option"
  title :: "jstring option"

record TermInfo = TermSummary +
  iri :: jstring
  href :: jstring

record ConvertInfo =
  cv_ok :: bool
  cv_reason :: "jstring option"

record Meta =
  meta_prefix :: jstring
  meta_uri :: jstring
  meta_namespace :: "jstring option"
  meta_lovLatestFileURL :: jstring
  meta_lovLatestIssued :: jstring
  meta_fetchedAt :: jstring
  meta_fetchedFrom :: jstring
  meta_ok :: bool
  meta_status :: int
  meta_contentType :: "jstring option"
  meta_finalUrl :: jstring
  meta_skipped :: "bool option"
  meta_convert :: "ConvertInfo option"
  meta_error :: "jstring option"

record ResultItem =
  r_prefix :: jstring
  r_uri :: jstring
  r_namespace :: "jstring option"
  r_lovLatestFileURL :: "jstring option"
  r_lovLatestIssued :: "jstring option"
  r_ok :: bool
  r_status :: int
  r_finalUrl :: "jstring option"
  r_fileByPrefix :: "jstring option"
  r_fileByUri :: "jstring option"
  r_skipped :: bool
  r_note :: "jstring option"
  r_classCount :: "nat option"
  r_propertyCount :: "nat option"
  r_classLinks :: "TermInfo list option"
  r_propLinks :: "TermInfo list option"

record FetchResult =
  fr_ok :: bool
  fr_status :: int
  fr_contentType :: "jstring option"
  fr_text :: "jstring option"
  fr_finalUrl :: jstring
  fr_error :: "jstring option"

section \<open>The file tree and the trace (fsutil.ts)\<close>

text \<open>
  A path is the list of its segments below the output root. Every segment the program
  joins is free of separators (a literal name, or the result of \<open>encodeURIComponent\<close>,
  which escapes \<open>/\<close>), so \<open>path.join\<close> adds one segment, and normalises as it
  does: an empty segment and \<open>.\<close> add nothing, \<open>..\<close> removes the last segment.

  The world holds the regular files of the tree, each with the content written to it
  (JSON files by the value that was serialised: \<open>JSON.parse\<close> gives it back), and the
  trace of what the program did to the outside: downloads, conversions and file writes.
  Directories are not tracked (\<open>ensureDir\<close> changes nothing here), and a write always
  succeeds.
\<close>

type_synonym path = "jstring list"

definition OUT_ROOT :: path where
  "OUT_ROOT = []"

definition OUT_FILENAME :: jstring where
  "OUT_FILENAME = js ''ontology.ttl''"

definition pathJoin :: "path \<Rightarrow> jstring \<Rightarrow> path" where
  "pathJoin p seg =
     (if seg = [] \<or> seg = js ''.'' then p
      else if seg = js ''..'' then butlast p
      else p @ [seg])"

datatype fileContent =
    TextFile jstring
  | MetaJson Meta
  | OntologyIndexHtml jstring jstring "TermInfo list" "TermInfo list"
  | IndexJson jstring nat nat nat "ResultItem list"
  | NamespaceIndexJson jstring nat "ResultItem list"
  | NamespacesIndexHtml "(jstring \<times> nat) list"
  | GlobalIndexHtml jstring

datatype action = FetchText jstring | Convert jstring | Write path fileContent

record world =
  files :: "path \<Rightarrow> fileContent option"
  trace :: "action list"

definition fileExists :: "world \<Rightarrow> path \<Rightarrow> bool" where
  "fileExists w p \<longleftrightarrow> files w p \<noteq> None"

definition readJsonIfExists :: "world \<Rightarrow> path \<Rightarrow> Meta option" where
  "readJsonIfExists w p = (case files w p of Some (MetaJson m) \<Rightarrow> Some m | _ \<Rightarrow> None)"

definition writeFile :: "world \<Rightarrow> path \<Rightarrow> fileContent \<Rightarrow> world" where
  "writeFile w p f = w\<lparr> files := (files w)(p \<mapsto> f), trace := trace w @ [Write p f] \<rparr>"

definition logAction :: "world \<Rightarrow> action \<Rightarrow> world" where
  "logAction w a = w\<lparr> trace := trace w @ [a] \<rparr>"

section \<open>Tiny term files (terms.ts)\<close>

datatype TermKind = Classes | Properties

fun kindName :: "TermKind \<Rightarrow> jstring" where
  "kindName Classes = js ''classes''"
| "kindName Properties = js ''properties''"

definition writeTinyTermFile ::
  "'a n3lib_scheme \<Rightarrow> path \<Rightarrow> TermKind \<Rightarrow> jstring \<Rightarrow> Store \<Rightarrow> world
     \<Rightarrow> (jserror + jstring option) \<times> world"
where
  "writeTinyTermFile lib outRoot kind termIri store w =
     (let folder = pathJoin outRoot (kindName kind) in
      case encUriSegment termIri of
        Inl e \<Rightarrow> (Inl e, w)
      | Inr seg \<Rightarrow>
          (let filename = seg @ js ''.ttl'';
               filePath = pathJoin folder filename
           in
           if fileExists w filePath then (Inr (Some (kindName kind @ js ''/'' @ filename)), w)
           else
             (let quads =
                    filter (\<lambda>q. isNamedNodeIri (predicate q) \<and>
                                 termValue (predicate q) \<in> set DEF_PREDICATES)
                      (getQuads store (Some (NamedNode termIri)) None None None)
              in
              if length quads = 0 then (Inr None, w)
              else (Inr (Some (kindName kind @ js ''/'' @ filename)),
                    writeFile w filePath (TextFile (n3write lib quads))))))"

section \<open>The pipeline of one vocabulary (pipeline.ts)\<close>

definition fetchText :: "'a host_scheme \<Rightarrow> jstring \<Rightarrow> FetchResult" where
  "fetchText h url =
     (case fetch h url of
        Inl e \<Rightarrow>
          \<lparr> fr_ok = False, fr_status = 0, fr_contentType = None, fr_text = None,
            fr_finalUrl = url, fr_error = Some (errorMessage e) \<rparr>
      | Inr res \<Rightarrow>
          if \<not> res_ok res then
            \<lparr> fr_ok = False, fr_status = res_status res, fr_contentType = res_contentType res,
              fr_text = None, fr_finalUrl = res_url res, fr_error = None \<rparr>
          else
            (case res_text res of
               Inl e \<Rightarrow>
                 \<lparr> fr_ok = False, fr_status = 0, fr_contentType = None, fr_text = None,
                   fr_finalUrl = url, fr_error = Some (errorMessage e) \<rparr>
             | Inr txt \<Rightarrow>
                 \<lparr> fr_ok = True, fr_status = res_status res,
                   fr_contentType = res_contentType res, fr_text = Some txt,
                   fr_finalUrl = res_url res, fr_error = None \<rparr>))"

text \<open>
  The two loops of \<open>processOne\<close> over the class and the property IRIs: a term whose
  tiny file is there (or was written) gets a link with its summary.
\<close>

fun termLinks ::
  "'a host_scheme \<Rightarrow> TermKind \<Rightarrow> Store \<Rightarrow> jstring list \<Rightarrow> TermInfo list \<Rightarrow> world
     \<Rightarrow> (jserror + TermInfo list) \<times> world"
where
  "termLinks h kind store [] links w = (Inr links, w)"
| "termLinks h kind store (i # rest) links w =
     (case writeTinyTermFile h OUT_ROOT kind i store w of
        (Inl e, w') \<Rightarrow> (Inl e, w')
      | (Inr None, w') \<Rightarrow> termLinks h kind store rest links w'
      | (Inr (Some hr), w') \<Rightarrow>
          termLinks h kind store rest
            (links @ [\<lparr> label = label (extractTermSummary store i),
                        description = description (extractTermSummary store i),
                        iri = i, href = hr \<rparr>]) w')"

text \<open>The local variables that \<open>processOne\<close> sets while it converts and persists.\<close>

record Converted =
  convertOk :: bool
  convertReason :: "jstring option"
  fileByPrefix :: "jstring option"
  fileByUri :: "jstring option"
  classLinks :: "TermInfo list"
  propLinks :: "TermInfo list"

text \<open>
  The block \<open>if (fr.ok && fr.text != null) { ... }\<close> of \<open>processOne\<close>. \<open>ep\<close> and
  \<open>eu\<close> are the encoded prefix and URI, which \<open>processOne\<close> has computed when it
  comes here.
\<close>

definition convertAndPersist ::
  "'a host_scheme \<Rightarrow> VocabItem \<Rightarrow> Version \<Rightarrow> path \<Rightarrow> path \<Rightarrow> jstring \<Rightarrow> jstring \<Rightarrow> FetchResult
     \<Rightarrow> world \<Rightarrow> (jserror + Converted) \<times> world"
where
  "convertAndPersist h v latest prefixDir uriDir ep eu fr w =
     (case fr_text fr of
        None \<Rightarrow>
          (Inr \<lparr> convertOk = False, convertReason = None, fileByPrefix = None,
                 fileByUri = None, classLinks = [], propLinks = [] \<rparr>, w)
      | Some txt \<Rightarrow>
          if \<not> fr_ok fr then
            (Inr \<lparr> convertOk = False, convertReason = None, fileByPrefix = None,
                   fileByUri = None, classLinks = [], propLinks = [] \<rparr>, w)
          else
            (case parseAndSerializeToTurtle h txt (fr_contentType fr) (uri v) (fileURL latest) of
               ParseFailed reason \<Rightarrow>
                 (Inr \<lparr> convertOk = False, convertReason = Some reason, fileByPrefix = None,
                        fileByUri = None, classLinks = [], propLinks = [] \<rparr>,
                  logAction w (Convert (fileURL latest)))
             | ParseOk store ttl \<Rightarrow>
                 (let w1 = logAction w (Convert (fileURL latest));
                      w2 = writeFile w1 (pathJoin prefixDir OUT_FILENAME) (TextFile ttl);
                      w3 = writeFile w2 (pathJoin uriDir OUT_FILENAME) (TextFile ttl);
                      found = findClassesAndProperties store
                  in
                  case termLinks h Classes store (classes found) [] w3 of
                    (Inl e, w4) \<Rightarrow> (Inl e, w4)
                  | (Inr cl, w4) \<Rightarrow>
                      (case termLinks h Properties store (properties found) [] w4 of
                         (Inl e, w5) \<Rightarrow> (Inl e, w5)
                       | (Inr pl, w5) \<Rightarrow>
                           (Inr \<lparr> convertOk = True, convertReason = None,
                                  fileByPrefix =
                                    Some (js ''by-prefix/'' @ ep @ js ''/'' @ OUT_FILENAME),
                                  fileByUri =
                                    Some (js ''by-uri/'' @ eu @ js ''/'' @ OUT_FILENAME),
                                  classLinks = cl, propLinks = pl \<rparr>,
                            writeFile w5 (pathJoin prefixDir (js ''index.html''))
                              (OntologyIndexHtml (prefix v) OUT_FILENAME cl pl))))))"

definition isUpToDate :: "world \<Rightarrow> path \<Rightarrow> path \<Rightarrow> Version \<Rightarrow> bool" where
  "isUpToDate w prefixMetaPath prefixOntPath latest =
     (let existingMeta = readJsonIfExists w prefixMetaPath;
          hasFile = fileExists w prefixOntPath
      in
      hasFile \<and>
      map_option meta_lovLatestFileURL existingMeta = Some (fileURL latest) \<and>
      map_option meta_lovLatestIssued existingMeta = Some (issued latest) \<and>
      (case existingMeta of
         None \<Rightarrow> False
       | Some m \<Rightarrow> (case meta_convert m of None \<Rightarrow> False | Some c \<Rightarrow> cv_ok c)))"

definition unresolvedResult :: "VocabItem \<Rightarrow> ResultItem" where
  "unresolvedResult v =
     \<lparr> r_prefix = prefix v, r_uri = uri v, r_namespace = namespace v,
       r_lovLatestFileURL = None, r_lovLatestIssued = None, r_ok = False, r_status = 0,
       r_finalUrl = None, r_fileByPrefix = None, r_fileByUri = None, r_skipped = False,
       r_note = Some (js ''Could not fetch LOV info or no versions/fileURL''),
       r_classCount = None, r_propertyCount = None, r_classLinks = None, r_propLinks = None \<rparr>"

definition cachedResult :: "VocabItem \<Rightarrow> Version \<Rightarrow> jstring \<Rightarrow> jstring \<Rightarrow> Meta option \<Rightarrow> ResultItem" where
  "cachedResult v latest ep eu existingMeta =
     \<lparr> r_prefix = prefix v, r_uri = uri v, r_namespace = namespace v,
       r_lovLatestFileURL = Some (fileURL latest), r_lovLatestIssued = Some (issued latest),
       r_ok = True, r_status = 304,
       r_finalUrl = map_option meta_finalUrl existingMeta,
       r_fileByPrefix = Some (js ''by-prefix/'' @ ep @ js ''/'' @ OUT_FILENAME),
       r_fileByUri = Some (js ''by-uri/'' @ eu @ js ''/'' @ OUT_FILENAME),
       r_skipped = True, r_note = None,
       r_classCount = None, r_propertyCount = None, r_classLinks = None, r_propLinks = None \<rparr>"

definition metaOf :: "'a host_scheme \<Rightarrow> VocabItem \<Rightarrow> Version \<Rightarrow> FetchResult \<Rightarrow> Converted \<Rightarrow> Meta" where
  "metaOf h v latest fr c =
     \<lparr> meta_prefix = prefix v, meta_uri = uri v, meta_namespace = namespace v,
       meta_lovLatestFileURL = fileURL latest, meta_lovLatestIssued = issued latest,
       meta_fetchedAt = now h, meta_fetchedFrom = fileURL latest,
       meta_ok = fr_ok fr, meta_status = fr_status fr, meta_contentType = fr_contentType fr,
       meta_finalUrl = fr_finalUrl fr, meta_skipped = None,
       meta_convert = Some \<lparr> cv_ok = convertOk c, cv_reason = convertReason c \<rparr>,
       meta_error = fr_error fr \<rparr>"

definition fetchedResult :: "VocabItem \<Rightarrow> Version \<Rightarrow> FetchResult \<Rightarrow> Converted \<Rightarrow> ResultItem" where
  "fetchedResult v latest fr c =
     \<lparr> r_prefix = prefix v, r_uri = uri v, r_namespace = namespace v,
       r_lovLatestFileURL = Some (fileURL latest), r_lovLatestIssued = Some (issued latest),
       r_ok = (fr_ok fr \<and> convertOk c),
       r_status = (if fr_ok fr then (if convertOk c then fr_status fr else 422) else fr_status fr),
       r_finalUrl = Some (fr_finalUrl fr),
       r_fileByPrefix = fileByPrefix c, r_fileByUri = fileByUri c,
       r_skipped = False, r_note = orElse (convertReason c) (fr_error fr),
       r_classCount = Some (length (classLinks c)),
       r_propertyCount = Some (length (propLinks c)),
       r_classLinks = Some (classLinks c), r_propLinks = Some (propLinks c) \<rparr>"

text \<open>
  \<open>processOne\<close>. A thrown error that nothing catches ends it with \<open>Inl\<close>, in the
  world as it is then; the \<open>try\<close> around \<open>extractLatestVersion\<close> turns its error into
  \<open>null\<close>.
\<close>

definition processOne :: "'a host_scheme \<Rightarrow> VocabItem \<Rightarrow> world \<Rightarrow> (jserror + ResultItem) \<times> world" where
  "processOne h v w =
     (case encPrefixSegment (prefix v) of
        Inl e \<Rightarrow> (Inl e, w)
      | Inr ep \<Rightarrow>
     (case encUriSegment (uri v) of
        Inl e \<Rightarrow> (Inl e, w)
      | Inr eu \<Rightarrow>
     (let prefixDir = pathJoin (pathJoin OUT_ROOT (js ''by-prefix'')) ep;
          uriDir = pathJoin (pathJoin OUT_ROOT (js ''by-uri'')) eu;
          prefixMetaPath = pathJoin prefixDir (js ''meta.json'');
          prefixOntPath = pathJoin prefixDir OUT_FILENAME
      in
      case (case extractLatestVersion h (prefix v) of Inl e \<Rightarrow> None | Inr l \<Rightarrow> l) of
        None \<Rightarrow> (Inr (unresolvedResult v), w)
      | Some latest \<Rightarrow>
          if isUpToDate w prefixMetaPath prefixOntPath latest then
            (Inr (cachedResult v latest ep eu (readJsonIfExists w prefixMetaPath)), w)
          else
            (let fr = fetchText h (fileURL latest);
                 w1 = logAction w (FetchText (fileURL latest))
             in
             case convertAndPersist h v latest prefixDir uriDir ep eu fr w1 of
               (Inl e, w2) \<Rightarrow> (Inl e, w2)
             | (Inr c, w2) \<Rightarrow>
                 (let meta = metaOf h v latest fr c;
                      w3 = writeFile w2 (pathJoin prefixDir (js ''meta.json'')) (MetaJson meta);
                      w4 = writeFile w3 (pathJoin uriDir (js ''meta.json'')) (MetaJson meta)
                  in (Inr (fetchedResult v latest fr c), w4))))))"

section \<open>The run and its indexes (pipeline.ts)\<close>








section \<open>Notions of the specification\<close>

text \<open>
  The words of the specification that the theorems below use. A comparator is
  consistent on a set when, read as "does not follow", it is total and transitive
  there: what \<open>Array.prototype.sort\<close> asks of it.
\<close>

definition consistentOn :: "'a set \<Rightarrow> ('a \<Rightarrow> 'a \<Rightarrow> int) \<Rightarrow> bool" where
  "consistentOn S cmp \<longleftrightarrow>
     (\<forall>a \<in> S. \<forall>b \<in> S. cmp a b \<le> 0 \<or> cmp b a \<le> 0) \<and>
     (\<forall>a \<in> S. \<forall>b \<in> S. \<forall>c \<in> S. cmp a b \<le> 0 \<longrightarrow> cmp b c \<le> 0 \<longrightarrow> cmp a c \<le> 0)"

text \<open>
  The version entries of an answer; an entry is usable when it has a file URL and a
  string \<open>issued\<close> (both not empty) that \<open>Date.parse\<close> reads as a finite number,
  and \<open>issuedMsOf\<close> is that number.
\<close>

definition versionsOf :: "LovInfo \<Rightarrow> LovInfoVersion list" where
  "versionsOf info = (case versions info of None \<Rightarrow> [] | Some vs \<Rightarrow> vs)"

definition usableVersion :: "'a host_scheme \<Rightarrow> LovInfoVersion \<Rightarrow> bool" where
  "usableVersion h x =
     (case v_fileURL x of
        None \<Rightarrow> False
      | Some f \<Rightarrow> f \<noteq> [] \<and>
          (case v_issued x of None \<Rightarrow> False | Some i \<Rightarrow> i \<noteq> [] \<and> Date_parse h i \<noteq> None))"

definition issuedMsOf :: "'a host_scheme \<Rightarrow> LovInfoVersion \<Rightarrow> int option" where
  "issuedMsOf h x = (case v_issued x of None \<Rightarrow> None | Some i \<Rightarrow> Date_parse h i)"

definition toCandidate :: "'a host_scheme \<Rightarrow> LovInfoVersion \<Rightarrow> Candidate" where
  "toCandidate h x = \<lparr> fileURL = the (v_fileURL x), issued = the (v_issued x),
                    issuedMs = parseIssuedMs h (the (v_issued x)) \<rparr>"



text \<open>
  The quads of a term that its tiny file may hold: the term is the subject and the
  predicate is on the allow-list. \<open>tinyPath\<close> is the place of the tiny file whose
  name is the encoded IRI \<open>seg\<close>, and \<open>tinyHref\<close> its address relative to the root.
\<close>

definition definitionalQuads :: "Store \<Rightarrow> jstring \<Rightarrow> quad list" where
  "definitionalQuads store termIri =
     filter (\<lambda>q. subject q = NamedNode termIri \<and> isNamedNodeIri (predicate q) \<and>
                  termValue (predicate q) \<in> set DEF_PREDICATES) store"

definition tinyPath :: "path \<Rightarrow> TermKind \<Rightarrow> jstring \<Rightarrow> path" where
  "tinyPath outRoot kind seg = pathJoin (pathJoin outRoot (kindName kind)) (seg @ js ''.ttl'')"

definition tinyHref :: "TermKind \<Rightarrow> jstring \<Rightarrow> jstring" where
  "tinyHref kind seg = kindName kind @ js ''/'' @ seg @ js ''.ttl''"










text \<open>
  A string is well formed when every surrogate code unit in it is half of a pair: a
  high surrogate directly followed by a low one. \<open>decodeThen\<close> is what Decode does
  with the rest of the string after it has read one character.
\<close>

fun wellFormed :: "jstring \<Rightarrow> bool" where
  "wellFormed [] = True"
| "wellFormed (c # cs) =
     (if isHighSurrogate c then
        (case cs of [] \<Rightarrow> False | d # ds \<Rightarrow> isLowSurrogate d \<and> wellFormed ds)
      else \<not> isLowSurrogate c \<and> wellFormed cs)"

definition decodeThen :: "(jstring \<Rightarrow> jstring) \<Rightarrow> jstring \<Rightarrow> jserror + jstring" where
  "decodeThen f r = (case decodeURIComponent r of Inl e \<Rightarrow> Inl e | Inr s \<Rightarrow> Inr (f s))"


section \<open>A sample host\<close>

text \<open>
  The vocabulary \<open>ex\<close> of the specification's scenario, for the concrete instances
  below: the registry knows four version entries of it (one without a file, one with a
  date that does not parse, an old one and the one of 2023), and its file is a Turtle
  document with one class labelled \<open>Thing\<close>.
\<close>

definition exVocab :: VocabItem where
  "exVocab = \<lparr> prefix = js ''ex'', uri = js ''http://example.org/ex#'',
               namespace = Some (js ''http://example.org/ex#''), title = None \<rparr>"

definition exInfo :: LovInfo where
  "exInfo = \<lparr> versions = Some
     [\<lparr> v_fileURL = None, v_issued = Some (js ''2025-01-01T00:00:00Z'') \<rparr>,
      \<lparr> v_fileURL = Some (js ''http://example.org/old.ttl''),
        v_issued = Some (js ''2020-01-01T00:00:00Z'') \<rparr>,
      \<lparr> v_fileURL = Some (js ''http://example.org/ex.ttl''),
        v_issued = Some (js ''2023-01-01T00:00:00Z'') \<rparr>,
      \<lparr> v_fileURL = Some (js ''http://example.org/draft.ttl''),
        v_issued = Some (js ''soon'') \<rparr>] \<rparr>"

definition exDateParse :: "jstring \<Rightarrow> int option" where
  "exDateParse s =
     (if s = js ''2020-01-01T00:00:00Z'' then Some 1577836800000
      else if s = js ''2023-01-01T00:00:00Z'' then Some 1672531200000
      else if s = js ''2025-01-01T00:00:00Z'' then Some 1735689600000
      else None)"

definition exThing :: jstring where
  "exThing = js ''http://example.org/ex#Thing''"

definition exStore :: Store where
  "exStore =
     [\<lparr> subject = NamedNode exThing, predicate = rdfType,
        object = NamedNode (OWL @ js ''Class''), graph = DefaultGraph \<rparr>,
      \<lparr> subject = NamedNode exThing, predicate = NamedNode (RDFS @ js ''label''),
        object = Literal (js ''Thing'') [] (js ''http://www.w3.org/2001/XMLSchema#string''),
        graph = DefaultGraph \<rparr>]"

definition exTurtle :: jstring where
  "exTurtle = js ''<http://example.org/ex#Thing> a <http://www.w3.org/2002/07/owl#Class> .''"

definition exInfoUrl :: jstring where
  "exInfoUrl = js ''https://lov.linkeddata.es/dataset/lov/api/v2/vocabulary/info?vocab=ex''"

definition codeUnitCompare :: "jstring \<Rightarrow> jstring \<Rightarrow> int" where
  "codeUnitCompare a b = (if a < b then - 1 else if a = b then 0 else 1)"

definition exHost :: host where
  "exHost =
     \<lparr> toLowerCase = asciiLowerCase,
       n3parse = (\<lambda>format baseIRI txt.
          if txt = exTurtle then Inr exStore
          else Inl (Error (js ''Unexpected token on line 1.''))),
       n3write = (\<lambda>quads. exTurtle),
       Date_parse = exDateParse,
       fetchJson = (\<lambda>url.
          if url = exInfoUrl then Inr exInfo
          else Inl (Error (js ''Fetch failed 500''))),
       fetch = (\<lambda>url.
          Inr \<lparr> res_ok = True, res_status = 200, res_contentType = Some (js ''text/turtle''),
                res_url = url, res_text = Inr exTurtle \<rparr>),
       now = js ''2026-01-01T00:00:00.000Z'',
       localeCompare = codeUnitCompare \<rparr>"

definition emptyWorld :: world where
  "emptyWorld = \<lparr> files = (\<lambda>p. None), trace = [] \<rparr>"

definition exThingSegment :: jstring where
  "exThingSegment = js ''http%3A%2F%2Fexample.org%2Fex%23Thing''"

text \<open>A world in which the tiny class file of \<open>ex:Thing\<close> is there.\<close>

definition tinyWorld :: world where
  "tinyWorld =
     \<lparr> files = (\<lambda>p. if p = [js ''classes'', exThingSegment @ js ''.ttl'']
                       then Some (TextFile exTurtle) else None),
       trace = [] \<rparr>"















section \<open>Facts about strings\<close>

lemma unat_of_char: "unat (of_nat (of_char c) :: 16 word) = of_char c"
proof -
  have "(of_char c :: nat) < 256" by simp
  then have "(of_char c :: nat) < 65536" by linarith
  then show ?thesis by (simp add: unat_of_nat)
qed

lemma inj_js: "inj js"
proof (rule injI)
  fix a b assume "js a = js b"
  then have "map (\<lambda>c. (of_nat (of_char c) :: 16 word)) a = map (\<lambda>c. of_nat (of_char c)) b"
    by (simp add: js_def)
  moreover have "inj (\<lambda>c::char. (of_nat (of_char c) :: 16 word))"
  proof (rule injI)
    fix x y :: char
    assume h: "(of_nat (of_char x) :: 16 word) = of_nat (of_char y)"
    have "unat (of_nat (of_char x) :: 16 word) = unat (of_nat (of_char y) :: 16 word)"
      using h by (rule arg_cong)
    then have "(of_char x :: nat) = of_char y"
      unfolding unat_of_char .
    then show "x = y" by simp
  qed
  ultimately show "a = b" by (simp add: inj_map_eq_map)
qed

lemma js_eq_iff: "js a = js b \<longleftrightarrow> a = b"
  by (rule inj_eq [OF inj_js])

lemma js_append_eq: "js a @ js b = js (a @ b)"
  by (simp add: js_def)

lemma js_Nil_iff: "js a = [] \<longleftrightarrow> a = []"
  by (simp add: js_def)

section \<open>The stable sort\<close>

lemma set_insertBy: "set (insertBy cmp x ys) = insert x (set ys)"
  by (induction ys) auto

lemma set_sortBy: "set (sortBy cmp xs) = set xs"
  by (induction xs) (simp_all add: sortBy_def set_insertBy)

lemma mset_insertBy: "mset (insertBy cmp x ys) = add_mset x (mset ys)"
  by (induction ys) auto

lemma mset_sortBy: "mset (sortBy cmp xs) = mset xs"
  by (induction xs) (simp_all add: sortBy_def mset_insertBy)

lemma length_sortBy: "length (sortBy cmp xs) = length xs"
  using mset_sortBy [of cmp xs] by (metis size_mset)

lemma sortBy_Cons: "sortBy cmp (x # xs) = insertBy cmp x (sortBy cmp xs)"
  by (simp add: sortBy_def)

lemma sortBy_Nil: "sortBy cmp [] = []"
  by (simp add: sortBy_def)

lemma sorted_insertBy:
  assumes c: "consistentOn S cmp" and x: "x \<in> S" and ys: "set ys \<subseteq> S"
    and s: "sorted_wrt (\<lambda>a b. cmp a b \<le> 0) ys"
  shows "sorted_wrt (\<lambda>a b. cmp a b \<le> 0) (insertBy cmp x ys)"
  using ys s
proof (induction ys)
  case Nil
  show ?case by simp
next
  case (Cons y ys)
  show ?case
  proof (cases "cmp x y \<le> 0")
    case True
    have "\<forall>z \<in> set ys. cmp x z \<le> 0"
    proof
      fix z assume z: "z \<in> set ys"
      then have "cmp y z \<le> 0" using Cons.prems(2) by simp
      moreover have "z \<in> S" "y \<in> S" using z Cons.prems(1) by auto
      ultimately show "cmp x z \<le> 0"
        using c x True unfolding consistentOn_def by blast
    qed
    then show ?thesis using True Cons.prems(2) by simp
  next
    case False
    have yS: "y \<in> S" using Cons.prems(1) by simp
    then have yx: "cmp y x \<le> 0"
      using c x False unfolding consistentOn_def by blast
    have "sorted_wrt (\<lambda>a b. cmp a b \<le> 0) (insertBy cmp x ys)"
      using Cons.IH Cons.prems by simp
    then show ?thesis using False yx Cons.prems(2) by (simp add: set_insertBy)
  qed
qed

lemma sorted_sortBy:
  assumes "consistentOn S cmp" "set xs \<subseteq> S"
  shows "sorted_wrt (\<lambda>a b. cmp a b \<le> 0) (sortBy cmp xs)"
  using assms(2)
proof (induction xs)
  case Nil
  show ?case by (simp add: sortBy_Nil)
next
  case (Cons x xs)
  then show ?case
    by (simp add: sortBy_Cons sorted_insertBy [OF assms(1), where ys = "sortBy cmp xs"] set_sortBy)
qed

lemma sortBy_head_least:
  assumes c: "consistentOn S cmp" and xs: "set xs \<subseteq> S" and h: "sortBy cmp xs = z # zs"
    and y: "y \<in> set xs"
  shows "cmp z y \<le> 0"
proof -
  have s: "sorted_wrt (\<lambda>a b. cmp a b \<le> 0) (z # zs)"
    using sorted_sortBy [OF c xs] h by simp
  have m: "set (z # zs) = set xs" using set_sortBy [of cmp xs] h by simp
  then have zS: "z \<in> S" using xs by auto
  show ?thesis
  proof (cases "y = z")
    case True
    then show ?thesis using c zS unfolding consistentOn_def by blast
  next
    case False
    then have "y \<in> set zs" using m y by auto
    then show ?thesis using s by simp
  qed
qed

section \<open>Term classification\<close>

lemma set_setAdd: "set (setAdd x xs) = insert x (set xs)"
  by (auto simp: setAdd_def)

lemma distinct_setAdd: "distinct xs \<Longrightarrow> distinct (setAdd x xs)"
  by (auto simp: setAdd_def)

lemma classifyLoop_fst:
  "set (fst (classifyLoop qs (cs, ps))) =
     set cs \<union> {s. \<exists>q \<in> set qs. \<exists>t. subject q = NamedNode s \<and> object q = NamedNode t \<and>
                  t \<in> set CLASS_TYPES}"
proof (induction qs arbitrary: cs ps)
  case Nil
  show ?case by simp
next
  case (Cons q qs)
  show ?case
  proof (cases "subject q")
    case (NamedNode s)
    show ?thesis
      by (cases "object q") (auto simp: NamedNode Cons.IH set_setAdd)
  qed (auto simp: Cons.IH)
qed

lemma classifyLoop_snd:
  "set (snd (classifyLoop qs (cs, ps))) =
     set ps \<union> {s. \<exists>q \<in> set qs. \<exists>t. subject q = NamedNode s \<and> object q = NamedNode t \<and>
                  t \<in> set PROPERTY_TYPES}"
proof (induction qs arbitrary: cs ps)
  case Nil
  show ?case by simp
next
  case (Cons q qs)
  show ?case
  proof (cases "subject q")
    case (NamedNode s)
    show ?thesis
      by (cases "object q") (auto simp: NamedNode Cons.IH set_setAdd)
  qed (auto simp: Cons.IH)
qed

lemma classifyLoop_distinct:
  "distinct cs \<Longrightarrow> distinct ps \<Longrightarrow>
   distinct (fst (classifyLoop qs (cs, ps))) \<and> distinct (snd (classifyLoop qs (cs, ps)))"
  by (induction qs arbitrary: cs ps) (simp_all add: distinct_setAdd)

lemma set_getQuads_rdfType:
  "set (getQuads store None (Some rdfType) None None) = {q \<in> set store. predicate q = rdfType}"
  by (auto simp: getQuads_def matches_def)

lemma PROPERTY_TYPES_count: "length PROPERTY_TYPES = 11 \<and> distinct PROPERTY_TYPES"
  by (simp add: PROPERTY_TYPES_def RDF_def OWL_def js_append_eq js_eq_iff)

lemma CLASS_TYPES_count: "length CLASS_TYPES = 2 \<and> distinct CLASS_TYPES"
  by (simp add: CLASS_TYPES_def RDFS_def OWL_def js_append_eq js_eq_iff)

text \<open>
  C5, as the source has it. The classes are exactly the IRI subjects with an
  \<open>rdf:type\<close> quad whose object is one of the two class types, the properties exactly
  those with an \<open>rdf:type\<close> quad whose object is one of the property types; both lists
  are sorted by code units and free of duplicates. A subject with no such quad is in
  neither list and a subject with both kinds of quad is in both, as the two set
  equations say. The property types are eleven distinct IRIs (\<open>rdf:Property\<close> and ten
  OWL property types), not ten.
\<close>

theorem findClassesAndProperties_spec:
  "set (classes (findClassesAndProperties store)) =
     {s. \<exists>q \<in> set store. \<exists>t. predicate q = rdfType \<and> subject q = NamedNode s \<and>
            object q = NamedNode t \<and> t \<in> set CLASS_TYPES} \<and>
   set (properties (findClassesAndProperties store)) =
     {s. \<exists>q \<in> set store. \<exists>t. predicate q = rdfType \<and> subject q = NamedNode s \<and>
            object q = NamedNode t \<and> t \<in> set PROPERTY_TYPES} \<and>
   sorted (classes (findClassesAndProperties store)) \<and>
   distinct (classes (findClassesAndProperties store)) \<and>
   sorted (properties (findClassesAndProperties store)) \<and>
   distinct (properties (findClassesAndProperties store)) \<and>
   length CLASS_TYPES = 2 \<and> distinct CLASS_TYPES \<and>
   length PROPERTY_TYPES = 11 \<and> distinct PROPERTY_TYPES"
proof -
  let ?qs = "getQuads store None (Some rdfType) None None"
  obtain cs ps where cl: "classifyLoop ?qs ([], []) = (cs, ps)"
    by (cases "classifyLoop ?qs ([], [])")
  have r: "findClassesAndProperties store = \<lparr> classes = sort cs, properties = sort ps \<rparr>"
    by (simp add: findClassesAndProperties_def cl)
  have "set cs = {s. \<exists>q \<in> set ?qs. \<exists>t. subject q = NamedNode s \<and> object q = NamedNode t \<and>
                  t \<in> set CLASS_TYPES}"
    using classifyLoop_fst [of ?qs "[]" "[]"] by (simp add: cl)
  then have c1: "set cs = {s. \<exists>q \<in> set store. \<exists>t. predicate q = rdfType \<and>
                  subject q = NamedNode s \<and> object q = NamedNode t \<and> t \<in> set CLASS_TYPES}"
    unfolding set_getQuads_rdfType by blast
  have "set ps = {s. \<exists>q \<in> set ?qs. \<exists>t. subject q = NamedNode s \<and> object q = NamedNode t \<and>
                  t \<in> set PROPERTY_TYPES}"
    using classifyLoop_snd [of ?qs "[]" "[]"] by (simp add: cl)
  then have p1: "set ps = {s. \<exists>q \<in> set store. \<exists>t. predicate q = rdfType \<and>
                  subject q = NamedNode s \<and> object q = NamedNode t \<and> t \<in> set PROPERTY_TYPES}"
    unfolding set_getQuads_rdfType by blast
  have d: "distinct cs \<and> distinct ps"
    using classifyLoop_distinct [of "[]" "[]" ?qs] by (simp add: cl)
  show ?thesis
    using c1 p1 d PROPERTY_TYPES_count CLASS_TYPES_count by (simp add: r)
qed

text \<open>
  The claim counts ten property types. The set has eleven elements, and a subject typed
  with any one of the eleven comes out as a property.
\<close>

theorem property_types_ten_counterexample:
  "card (set PROPERTY_TYPES) = 11 \<and>
   map (\<lambda>t. properties (findClassesAndProperties
          [\<lparr> subject = NamedNode (js ''http://example.org/p''), predicate = rdfType,
             object = NamedNode t, graph = DefaultGraph \<rparr>])) PROPERTY_TYPES
    = replicate 11 [js ''http://example.org/p'']"
proof -
  have a: "card (set PROPERTY_TYPES) = 11"
    using PROPERTY_TYPES_count by (simp add: distinct_card)
  have b: "t \<in> set PROPERTY_TYPES \<Longrightarrow> properties (findClassesAndProperties
          [\<lparr> subject = NamedNode s, predicate = rdfType,
             object = NamedNode t, graph = DefaultGraph \<rparr>]) = [s]" for s t
    by (simp add: findClassesAndProperties_def getQuads_def matches_def setAdd_def)
  have "map (\<lambda>t. properties (findClassesAndProperties
          [\<lparr> subject = NamedNode (js ''http://example.org/p''), predicate = rdfType,
             object = NamedNode t, graph = DefaultGraph \<rparr>])) PROPERTY_TYPES
     = map (\<lambda>t. [js ''http://example.org/p'']) PROPERTY_TYPES"
    by (rule map_cong) (simp_all add: b)
  also have "\<dots> = replicate 11 [js ''http://example.org/p'']"
    using PROPERTY_TYPES_count by (simp add: map_replicate_const)
  finally show ?thesis using a by simp
qed

section \<open>Term summaries\<close>

lemma trim_Nil: "trim [] = []"
  by (simp add: trim_def)

lemma pickLoop_eq:
  "pickLoop qs =
     (case filter (\<lambda>v. trim v \<noteq> []) (List.map_filter (\<lambda>q. litValue (object q)) qs) of
        [] \<Rightarrow> None
      | v # vs \<Rightarrow> Some (trim v))"
proof (induction qs)
  case Nil
  show ?case by (simp add: List.map_filter_simps)
next
  case (Cons q qs)
  show ?case
  proof (cases "litValue (object q)")
    case None
    then show ?thesis by (simp add: Cons.IH List.map_filter_simps)
  next
    case (Some v)
    then show ?thesis
      by (cases "trim v = []") (auto simp: Cons.IH List.map_filter_simps trim_Nil)
  qed
qed

lemma getQuads_subject_predicate:
  "getQuads store (Some s) (Some p) None None =
     filter (\<lambda>q. subject q = s \<and> predicate q = p) store"
  by (auto simp: getQuads_def matches_def intro: filter_cong)

lemma pickFirstLiteral_eq: "pickFirstLiteral store s p = firstNonBlank store s p"
  by (simp add: pickFirstLiteral_def firstNonBlank_def literalsOf_def pickLoop_eq
      getQuads_subject_predicate)

lemma orElse_firstSome: "orElse a (firstSome xs) = firstSome (a # xs)"
  by (cases a) (simp_all add: orElse_def)

lemma orElse_None: "orElse a None = firstSome [a]"
  by (cases a) (simp_all add: orElse_def)

lemma summary_eq:
  "label (extractTermSummary store t) =
     firstSome (map (firstNonBlank store t) LABEL_PREDICATES) \<and>
   description (extractTermSummary store t) =
     firstSome (map (firstNonBlank store t) DESCRIPTION_PREDICATES)"
  by (simp add: extractTermSummary_def pickFirstLiteral_eq LABEL_PREDICATES_def
      DESCRIPTION_PREDICATES_def orElse_None orElse_firstSome)

lemma firstNonBlank_no_literals: "literalsOf store t p = [] \<Longrightarrow> firstNonBlank store t p = None"
  by (simp add: firstNonBlank_def)

lemma firstSome_all_None: "(\<And>x. x \<in> set xs \<Longrightarrow> x = None) \<Longrightarrow> firstSome xs = None"
  by (induction xs rule: firstSome.induct) auto

lemma firstSome_head: "x \<noteq> None \<Longrightarrow> firstSome (x # xs) = x"
  by (cases x) simp_all

text \<open>
  C7, as the source has it. The label is the value of the first of \<open>skos:prefLabel\<close>,
  \<open>rdfs:label\<close>, \<open>dct:title\<close> under which the subject has a literal that is not blank
  (not empty once trimmed), and it is the first such literal of that predicate,
  trimmed; the description likewise over \<open>skos:definition\<close>, \<open>rdfs:comment\<close>,
  \<open>dct:description\<close>, \<open>skos:scopeNote\<close>. So a non-blank \<open>skos:prefLabel\<close> literal wins
  over every \<open>rdfs:label\<close>, and a subject with no literal under any candidate predicate
  has neither label nor description.
\<close>

theorem extractTermSummary_priority:
  "label (extractTermSummary store t) =
     firstSome (map (firstNonBlank store t) LABEL_PREDICATES) \<and>
   description (extractTermSummary store t) =
     firstSome (map (firstNonBlank store t) DESCRIPTION_PREDICATES) \<and>
   (firstNonBlank store t (SKOS @ js ''prefLabel'') \<noteq> None \<longrightarrow>
      label (extractTermSummary store t) = firstNonBlank store t (SKOS @ js ''prefLabel'')) \<and>
   ((\<forall>p \<in> set LABEL_PREDICATES \<union> set DESCRIPTION_PREDICATES. literalsOf store t p = []) \<longrightarrow>
      extractTermSummary store t = \<lparr> label = None, description = None \<rparr>)"
proof (intro conjI impI)
  show "label (extractTermSummary store t) =
     firstSome (map (firstNonBlank store t) LABEL_PREDICATES)"
    by (simp add: summary_eq)
  show "description (extractTermSummary store t) =
     firstSome (map (firstNonBlank store t) DESCRIPTION_PREDICATES)"
    by (simp add: summary_eq)
next
  assume "firstNonBlank store t (SKOS @ js ''prefLabel'') \<noteq> None"
  then show "label (extractTermSummary store t) = firstNonBlank store t (SKOS @ js ''prefLabel'')"
    by (simp add: summary_eq LABEL_PREDICATES_def firstSome_head)
next
  assume none: "\<forall>p \<in> set LABEL_PREDICATES \<union> set DESCRIPTION_PREDICATES. literalsOf store t p = []"
  have l: "firstSome (map (firstNonBlank store t) LABEL_PREDICATES) = None"
    by (rule firstSome_all_None) (use none in \<open>auto simp: firstNonBlank_no_literals\<close>)
  have d: "firstSome (map (firstNonBlank store t) DESCRIPTION_PREDICATES) = None"
    by (rule firstSome_all_None) (use none in \<open>auto simp: firstNonBlank_no_literals\<close>)
  have "label (extractTermSummary store t) = None" "description (extractTermSummary store t) = None"
    using l d by (simp_all add: summary_eq)
  then show "extractTermSummary store t = \<lparr> label = None, description = None \<rparr>"
    by (cases "extractTermSummary store t") simp
qed

text \<open>
  A class with the label \<open>Thing\<close> under both \<open>skos:prefLabel\<close> and \<open>rdfs:label\<close>
  (here \<open>Preferred\<close> and \<open>Plain\<close>) gets the preferred one; a subject with only a type
  quad gets no label and no description.
\<close>

theorem extractTermSummary_priority_witness:
  "firstNonBlank
     [\<lparr> subject = NamedNode (js ''http://example.org/T''),
        predicate = NamedNode (RDFS @ js ''label''),
        object = Literal (js ''Plain'') [] [], graph = DefaultGraph \<rparr>,
      \<lparr> subject = NamedNode (js ''http://example.org/T''),
        predicate = NamedNode (SKOS @ js ''prefLabel''),
        object = Literal (js ''Preferred'') [] [], graph = DefaultGraph \<rparr>]
     (js ''http://example.org/T'') (SKOS @ js ''prefLabel'') \<noteq> None \<and>
   label (extractTermSummary
     [\<lparr> subject = NamedNode (js ''http://example.org/T''),
        predicate = NamedNode (RDFS @ js ''label''),
        object = Literal (js ''Plain'') [] [], graph = DefaultGraph \<rparr>,
      \<lparr> subject = NamedNode (js ''http://example.org/T''),
        predicate = NamedNode (SKOS @ js ''prefLabel''),
        object = Literal (js ''Preferred'') [] [], graph = DefaultGraph \<rparr>]
     (js ''http://example.org/T'')) = Some (js ''Preferred'') \<and>
   list_all (\<lambda>p. literalsOf
     [\<lparr> subject = NamedNode (js ''http://example.org/T''), predicate = rdfType,
        object = NamedNode (OWL @ js ''Class''), graph = DefaultGraph \<rparr>]
     (js ''http://example.org/T'') p = []) (LABEL_PREDICATES @ DESCRIPTION_PREDICATES) \<and>
   extractTermSummary
     [\<lparr> subject = NamedNode (js ''http://example.org/T''), predicate = rdfType,
        object = NamedNode (OWL @ js ''Class''), graph = DefaultGraph \<rparr>]
     (js ''http://example.org/T'') = \<lparr> label = None, description = None \<rparr>"
proof -
  let ?t = "js ''http://example.org/T''"
  let ?A = "[\<lparr> subject = NamedNode ?t, predicate = NamedNode (RDFS @ js ''label''),
        object = Literal (js ''Plain'') [] [], graph = DefaultGraph \<rparr>,
      \<lparr> subject = NamedNode ?t, predicate = NamedNode (SKOS @ js ''prefLabel''),
        object = Literal (js ''Preferred'') [] [], graph = DefaultGraph \<rparr>]"
  let ?B = "[\<lparr> subject = NamedNode ?t, predicate = rdfType,
        object = NamedNode (OWL @ js ''Class''), graph = DefaultGraph \<rparr>]"
  have v: "firstNonBlank ?A ?t (SKOS @ js ''prefLabel'') = Some (js ''Preferred'')"
    by code_simp
  have n: "list_all (\<lambda>p. literalsOf ?B ?t p = []) (LABEL_PREDICATES @ DESCRIPTION_PREDICATES)"
    by (simp add: literalsOf_def List.map_filter_simps list_all_iff)
  then have n': "\<forall>p \<in> set LABEL_PREDICATES \<union> set DESCRIPTION_PREDICATES. literalsOf ?B ?t p = []"
    by (simp add: list_all_iff)
  have "firstNonBlank ?A ?t (SKOS @ js ''prefLabel'') \<noteq> None"
    by (simp only: v) simp
  with extractTermSummary_priority [of ?A ?t]
  have "label (extractTermSummary ?A ?t) = firstNonBlank ?A ?t (SKOS @ js ''prefLabel'')"
    by blast
  then have a: "label (extractTermSummary ?A ?t) = Some (js ''Preferred'')"
    by (simp only: v)
  have b: "extractTermSummary ?B ?t = \<lparr> label = None, description = None \<rparr>"
    using extractTermSummary_priority [of ?B ?t] n' by blast
  show ?thesis using v n a b by (simp only: option.distinct not_False_eq_True simp_thms)
qed

text \<open>
  The claim lets the first predicate with a literal win and takes that literal. With a
  blank \<open>skos:prefLabel\<close> and the \<open>rdfs:label\<close> " Thing ", the label is the
  \<open>rdfs:label\<close>, and it is trimmed.
\<close>

theorem blank_prefLabel_counterexample:
  "literalsOf
     [\<lparr> subject = NamedNode (js ''http://example.org/T''),
        predicate = NamedNode (SKOS @ js ''prefLabel''),
        object = Literal (js ''  '') [] [], graph = DefaultGraph \<rparr>,
      \<lparr> subject = NamedNode (js ''http://example.org/T''),
        predicate = NamedNode (RDFS @ js ''label''),
        object = Literal (js '' Thing '') [] [], graph = DefaultGraph \<rparr>]
     (js ''http://example.org/T'') (SKOS @ js ''prefLabel'') = [js ''  ''] \<and>
   label (extractTermSummary
     [\<lparr> subject = NamedNode (js ''http://example.org/T''),
        predicate = NamedNode (SKOS @ js ''prefLabel''),
        object = Literal (js ''  '') [] [], graph = DefaultGraph \<rparr>,
      \<lparr> subject = NamedNode (js ''http://example.org/T''),
        predicate = NamedNode (RDFS @ js ''label''),
        object = Literal (js '' Thing '') [] [], graph = DefaultGraph \<rparr>]
     (js ''http://example.org/T'')) = Some (js ''Thing'')"
  by code_simp

section \<open>Format detection\<close>

text \<open>
  C3, as the source has it. The extension of the URL is looked at before the two
  unsupported content types are: for a content type that is \<open>application/rdf+xml\<close> or
  \<open>application/ld+json\<close> once its parameters are stripped and it is lower-cased, the
  detector returns the serialization of the extension when that is \<open>ttl\<close>, \<open>n3\<close>,
  \<open>nt\<close> or \<open>trig\<close>, and "unsupported" (\<open>None\<close>) for every other URL.
\<close>

theorem n3FormatFor_unsupported_content_type:
  assumes "contentTypeBase lower ct = Some (js ''application/rdf+xml'') \<or>
           contentTypeBase lower ct = Some (js ''application/ld+json'')"
  shows "n3FormatFor lower ct url =
           (if urlExt lower url = js ''ttl'' then Some Turtle
            else if urlExt lower url = js ''n3'' then Some N3
            else if urlExt lower url = js ''nt'' then Some NTriples
            else if urlExt lower url = js ''trig'' then Some TriG
            else None)"
  using assms by (auto simp: n3FormatFor_def Let_def js_eq_iff)

theorem n3FormatFor_unsupported_content_type_witness:
  "contentTypeBase asciiLowerCase (Some (js ''Application/RDF+XML; charset=utf-8'')) =
     Some (js ''application/rdf+xml'') \<and>
   urlExt asciiLowerCase (js ''http://example.org/vocab.rdf'') = js ''rdf'' \<and>
   n3FormatFor asciiLowerCase (Some (js ''Application/RDF+XML; charset=utf-8''))
     (js ''http://example.org/vocab.rdf'') = None \<and>
   contentTypeBase asciiLowerCase (Some (js ''application/ld+json'')) =
     Some (js ''application/ld+json'') \<and>
   urlExt asciiLowerCase (js ''http://example.org/context.jsonld'') = js ''jsonld'' \<and>
   n3FormatFor asciiLowerCase (Some (js ''application/ld+json''))
     (js ''http://example.org/context.jsonld'') = None"
proof -
  let ?ct = "Some (js ''Application/RDF+XML; charset=utf-8'')"
  let ?url = "js ''http://example.org/vocab.rdf''"
  let ?ct' = "Some (js ''application/ld+json'')"
  let ?url' = "js ''http://example.org/context.jsonld''"
  have c: "contentTypeBase asciiLowerCase ?ct = Some (js ''application/rdf+xml'')"
    by code_simp
  have e: "urlExt asciiLowerCase ?url = js ''rdf''"
    by code_simp
  have n: "n3FormatFor asciiLowerCase ?ct ?url = None"
    using n3FormatFor_unsupported_content_type [of asciiLowerCase ?ct ?url] c
    by (simp add: e js_eq_iff)
  have c': "contentTypeBase asciiLowerCase ?ct' = Some (js ''application/ld+json'')"
    by code_simp
  have e': "urlExt asciiLowerCase ?url' = js ''jsonld''"
    by code_simp
  have n': "n3FormatFor asciiLowerCase ?ct' ?url' = None"
    using n3FormatFor_unsupported_content_type [of asciiLowerCase ?ct' ?url'] c'
    by (simp add: e' js_eq_iff)
  show ?thesis using c e n c' e' n' by (intro conjI)
qed

text \<open>
  The claim has the two content types rejected whatever the extension says. An RDF/XML
  content type on a URL that ends in \<open>.ttl\<close> is read as Turtle, and a JSON-LD content
  type on a URL that ends in \<open>.nt\<close> as N-Triples.
\<close>

theorem n3FormatFor_extension_counterexample:
  "contentTypeBase asciiLowerCase (Some (js ''application/rdf+xml'')) =
     Some (js ''application/rdf+xml'') \<and>
   n3FormatFor asciiLowerCase (Some (js ''application/rdf+xml''))
     (js ''http://example.org/vocab.ttl'') = Some Turtle \<and>
   n3FormatFor asciiLowerCase (Some (js ''application/ld+json''))
     (js ''http://example.org/vocab.nt'') = Some NTriples"
  by code_simp

section \<open>Version resolution\<close>

lemma candidatesOf_eq:
  "candidatesOf h info = map (toCandidate h) (filter (usableVersion h) (versionsOf info))"
proof -
  have "filter (\<lambda>x. issuedMs x \<noteq> None) (map (toCandidate h) (filter Q xs)) =
        map (toCandidate h) (filter (\<lambda>x. Q x \<and> issuedMs (toCandidate h x) \<noteq> None) xs)" for Q xs
    by (induction xs) auto
  moreover have "((case v_fileURL x of None \<Rightarrow> False | Some f \<Rightarrow> f \<noteq> []) \<and>
                        (case v_issued x of None \<Rightarrow> False | Some i \<Rightarrow> i \<noteq> [])) \<and>
                 issuedMs (toCandidate h x) \<noteq> None \<longleftrightarrow> usableVersion h x" for x
    by (auto simp: usableVersion_def toCandidate_def parseIssuedMs_def split: option.splits)
  ultimately show ?thesis
    unfolding candidatesOf_def versionsOf_def toCandidate_def [abs_def] by simp
qed

lemma byIssuedDesc_consistent: "consistentOn {c. issuedMs c \<noteq> None} byIssuedDesc"
  unfolding consistentOn_def byIssuedDesc_def by (auto split: option.splits)

lemma toCandidate_usable:
  assumes "usableVersion h x"
  shows "v_fileURL x = Some (fileURL (toCandidate h x)) \<and>
         v_issued x = Some (issued (toCandidate h x)) \<and>
         issuedMs (toCandidate h x) = issuedMsOf h x \<and> issuedMsOf h x \<noteq> None"
  using assms
  by (auto simp: usableVersion_def toCandidate_def issuedMsOf_def parseIssuedMs_def
      split: option.splits)

lemma extractLatestVersion_fetched:
  assumes u: "LOV_INFO_URL p = Inr url" and f: "fetchJson h url = Inr info"
  shows "extractLatestVersion h p =
           (case sortBy byIssuedDesc (candidatesOf h info) of
              [] \<Rightarrow> Inr None
            | c # cs \<Rightarrow> Inr (Some \<lparr> fileURL = fileURL c, issued = issued c \<rparr>))"
proof (cases "candidatesOf h info")
  case Nil
  then show ?thesis by (simp add: extractLatestVersion_def u f sortBy_Nil)
next
  case (Cons a as)
  then show ?thesis by (simp add: extractLatestVersion_def u f Let_def)
qed

lemma latest_is_maximal:
  assumes u: "LOV_INFO_URL p = Inr url" and f: "fetchJson h url = Inr info"
  shows "case extractLatestVersion h p of
           Inl e \<Rightarrow> False
         | Inr None \<Rightarrow> \<forall>x \<in> set (versionsOf info). \<not> usableVersion h x
         | Inr (Some r) \<Rightarrow>
             \<exists>x \<in> set (versionsOf info). \<exists>m.
               usableVersion h x \<and> v_fileURL x = Some (fileURL r) \<and>
               v_issued x = Some (issued r) \<and> issuedMsOf h x = Some m \<and>
               (\<forall>y \<in> set (versionsOf info). \<forall>n.
                  usableVersion h y \<longrightarrow> issuedMsOf h y = Some n \<longrightarrow> n \<le> m)"
proof (cases "sortBy byIssuedDesc (candidatesOf h info)")
  case Nil
  then have "candidatesOf h info = []"
    using length_sortBy [of byIssuedDesc "candidatesOf h info"] by simp
  then have "\<forall>x \<in> set (versionsOf info). \<not> usableVersion h x"
    by (simp add: candidatesOf_eq filter_empty_conv)
  then show ?thesis by (simp add: extractLatestVersion_fetched [OF u f] Nil)
next
  case (Cons c cs)
  let ?cands = "candidatesOf h info"
  have sub: "set ?cands \<subseteq> {c. issuedMs c \<noteq> None}"
    by (auto simp: candidatesOf_def)
  have "c \<in> set ?cands" using set_sortBy [of byIssuedDesc ?cands] Cons by auto
  then obtain x where x: "x \<in> set (versionsOf info)" "usableVersion h x" "c = toCandidate h x"
    by (auto simp: candidatesOf_eq)
  obtain m where m: "issuedMsOf h x = Some m"
    using toCandidate_usable [OF x(2)] by auto
  have cm: "issuedMs c = Some m" using toCandidate_usable [OF x(2)] m x(3) by simp
  have max: "n \<le> m"
    if y: "y \<in> set (versionsOf info)" "usableVersion h y" "issuedMsOf h y = Some n" for y n
  proof -
    have "toCandidate h y \<in> set ?cands" using y by (simp add: candidatesOf_eq)
    then have "byIssuedDesc c (toCandidate h y) \<le> 0"
      by (rule sortBy_head_least [OF byIssuedDesc_consistent sub Cons])
    moreover have "issuedMs (toCandidate h y) = Some n"
      using toCandidate_usable [OF y(2)] y(3) by simp
    ultimately show ?thesis by (simp add: byIssuedDesc_def cm)
  qed
  have "\<exists>x \<in> set (versionsOf info). \<exists>m.
               usableVersion h x \<and> v_fileURL x = Some (fileURL c) \<and>
               v_issued x = Some (issued c) \<and> issuedMsOf h x = Some m \<and>
               (\<forall>y \<in> set (versionsOf info). \<forall>n.
                  usableVersion h y \<longrightarrow> issuedMsOf h y = Some n \<longrightarrow> n \<le> m)"
    using x m max toCandidate_usable [OF x(2)] by blast
  then show ?thesis by (simp add: extractLatestVersion_fetched [OF u f] Cons)
qed

lemma processOne_unresolved:
  assumes "encPrefixSegment (prefix v) = Inr ep" "encUriSegment (uri v) = Inr eu"
    and "extractLatestVersion h (prefix v) = Inl e \<or> extractLatestVersion h (prefix v) = Inr None"
  shows "processOne h v w = (Inr (unresolvedResult v), w)"
  using assms by (auto simp: processOne_def Let_def)

text \<open>
  C4. When the registry answers, \<open>extractLatestVersion\<close> does not throw; it returns
  \<open>null\<close> exactly when no entry is usable, and otherwise the file URL and the
  \<open>issued\<close> string of a usable entry whose parsed time no usable entry exceeds. When
  the registry call fails the resolver throws, and \<open>processOne\<close>, which has formed the
  vocabulary's two directory names by then, turns that, like \<open>null\<close>, into the result
  of a vocabulary that was not resolved: not ok, status 0, not skipped, with a note,
  and nothing fetched or written. It returns, so the run goes on.
\<close>

theorem extractLatestVersion_latest:
  "(LOV_INFO_URL p = Inr url \<and> fetchJson h url = Inr info \<longrightarrow>
      (case extractLatestVersion h p of
         Inl e \<Rightarrow> False
       | Inr None \<Rightarrow> \<forall>x \<in> set (versionsOf info). \<not> usableVersion h x
       | Inr (Some r) \<Rightarrow>
           \<exists>x \<in> set (versionsOf info). \<exists>m.
             usableVersion h x \<and> v_fileURL x = Some (fileURL r) \<and>
             v_issued x = Some (issued r) \<and> issuedMsOf h x = Some m \<and>
             (\<forall>y \<in> set (versionsOf info). \<forall>n.
                usableVersion h y \<longrightarrow> issuedMsOf h y = Some n \<longrightarrow> n \<le> m))) \<and>
   (LOV_INFO_URL p = Inr url \<and> fetchJson h url = Inl e \<longrightarrow> extractLatestVersion h p = Inl e) \<and>
   (encPrefixSegment (prefix v) = Inr ep \<and> encUriSegment (uri v) = Inr eu \<and>
    (extractLatestVersion h (prefix v) = Inl e \<or> extractLatestVersion h (prefix v) = Inr None) \<longrightarrow>
      (\<exists>r. processOne h v w = (Inr r, w) \<and> \<not> r_ok r \<and> r_status r = 0 \<and> \<not> r_skipped r \<and>
           r_lovLatestFileURL r = None \<and> r_fileByPrefix r = None \<and>
           r_note r = Some (js ''Could not fetch LOV info or no versions/fileURL'')))"
proof (intro conjI impI)
  assume "LOV_INFO_URL p = Inr url \<and> fetchJson h url = Inr info"
  then show "case extractLatestVersion h p of
         Inl e \<Rightarrow> False
       | Inr None \<Rightarrow> \<forall>x \<in> set (versionsOf info). \<not> usableVersion h x
       | Inr (Some r) \<Rightarrow>
           \<exists>x \<in> set (versionsOf info). \<exists>m.
             usableVersion h x \<and> v_fileURL x = Some (fileURL r) \<and>
             v_issued x = Some (issued r) \<and> issuedMsOf h x = Some m \<and>
             (\<forall>y \<in> set (versionsOf info). \<forall>n.
                usableVersion h y \<longrightarrow> issuedMsOf h y = Some n \<longrightarrow> n \<le> m)"
    using latest_is_maximal by blast
next
  assume "LOV_INFO_URL p = Inr url \<and> fetchJson h url = Inl e"
  then show "extractLatestVersion h p = Inl e"
    by (simp add: extractLatestVersion_def)
next
  assume a: "encPrefixSegment (prefix v) = Inr ep \<and> encUriSegment (uri v) = Inr eu \<and>
    (extractLatestVersion h (prefix v) = Inl e \<or> extractLatestVersion h (prefix v) = Inr None)"
  then have "processOne h v w = (Inr (unresolvedResult v), w)"
    using processOne_unresolved by blast
  then show "\<exists>r. processOne h v w = (Inr r, w) \<and> \<not> r_ok r \<and> r_status r = 0 \<and> \<not> r_skipped r \<and>
           r_lovLatestFileURL r = None \<and> r_fileByPrefix r = None \<and>
           r_note r = Some (js ''Could not fetch LOV info or no versions/fileURL'')"
    by (simp add: unresolvedResult_def)
qed

text \<open>
  The sample registry: of the four entries of \<open>ex\<close> two are usable, and the one of 2023
  is returned. For another prefix the registry call fails and the vocabulary is
  recorded as not resolved.
\<close>

theorem extractLatestVersion_latest_witness:
  "LOV_INFO_URL (js ''ex'') = Inr exInfoUrl \<and> fetchJson exHost exInfoUrl = Inr exInfo \<and>
   extractLatestVersion exHost (js ''ex'') =
     Inr (Some \<lparr> fileURL = js ''http://example.org/ex.ttl'',
                 issued = js ''2023-01-01T00:00:00Z'' \<rparr>) \<and>
   (case extractLatestVersion exHost (js ''ex'') of
      Inl e \<Rightarrow> False
    | Inr None \<Rightarrow> False
    | Inr (Some r) \<Rightarrow> \<exists>x \<in> set (versionsOf exInfo). v_fileURL x = Some (fileURL r)) \<and>
   encPrefixSegment (prefix (exVocab\<lparr> prefix := js ''zz'' \<rparr>)) = Inr (js ''zz'') \<and>
   encUriSegment (uri (exVocab\<lparr> prefix := js ''zz'' \<rparr>)) = Inr (js ''http%3A%2F%2Fexample.org%2Fex%23'') \<and>
   LOV_INFO_URL (js ''zz'') =
     Inr (js ''https://lov.linkeddata.es/dataset/lov/api/v2/vocabulary/info?vocab=zz'') \<and>
   fetchJson exHost (js ''https://lov.linkeddata.es/dataset/lov/api/v2/vocabulary/info?vocab=zz'') =
     Inl (Error (js ''Fetch failed 500'')) \<and>
   extractLatestVersion exHost (prefix (exVocab\<lparr> prefix := js ''zz'' \<rparr>)) =
     Inl (Error (js ''Fetch failed 500'')) \<and>
   (\<exists>r. processOne exHost (exVocab\<lparr> prefix := js ''zz'' \<rparr>) emptyWorld = (Inr r, emptyWorld) \<and>
        \<not> r_ok r \<and> r_status r = 0 \<and> \<not> r_skipped r)"
proof -
  let ?v = "exVocab\<lparr> prefix := js ''zz'' \<rparr>"
  have u: "LOV_INFO_URL (js ''ex'') = Inr exInfoUrl" by code_simp
  have f: "fetchJson exHost exInfoUrl = Inr exInfo" by (simp add: exHost_def)
  have l: "extractLatestVersion exHost (js ''ex'') =
     Inr (Some \<lparr> fileURL = js ''http://example.org/ex.ttl'',
                 issued = js ''2023-01-01T00:00:00Z'' \<rparr>)" by code_simp
  have c: "case extractLatestVersion exHost (js ''ex'') of
      Inl e \<Rightarrow> False
    | Inr None \<Rightarrow> False
    | Inr (Some r) \<Rightarrow> \<exists>x \<in> set (versionsOf exInfo). v_fileURL x = Some (fileURL r)"
  proof -
    have "LOV_INFO_URL (js ''ex'') = Inr exInfoUrl \<and> fetchJson exHost exInfoUrl = Inr exInfo"
      using u f by simp
    from extractLatestVersion_latest [of "js ''ex''" exInfoUrl exHost exInfo,
        THEN conjunct1, rule_format, OF this]
    show ?thesis unfolding l by (simp only: sum.case option.case) blast
  qed
  have p: "encPrefixSegment (prefix ?v) = Inr (js ''zz'')" by code_simp
  have q: "encUriSegment (uri ?v) = Inr (js ''http%3A%2F%2Fexample.org%2Fex%23'')"
    by code_simp
  let ?zz = "js ''https://lov.linkeddata.es/dataset/lov/api/v2/vocabulary/info?vocab=zz''"
  have u': "LOV_INFO_URL (js ''zz'') = Inr ?zz" by code_simp
  have f': "fetchJson exHost ?zz = Inl (Error (js ''Fetch failed 500''))" by code_simp
  have x: "extractLatestVersion exHost (prefix ?v) = Inl (Error (js ''Fetch failed 500''))"
  proof -
    have "LOV_INFO_URL (js ''zz'') = Inr ?zz \<and>
          fetchJson exHost ?zz = Inl (Error (js ''Fetch failed 500''))"
      using u' f' by simp
    from extractLatestVersion_latest [of "js ''zz''" ?zz exHost _
        "Error (js ''Fetch failed 500'')", THEN conjunct2, THEN conjunct1, rule_format, OF this]
    show ?thesis by simp
  qed
  have r: "\<exists>r. processOne exHost ?v emptyWorld = (Inr r, emptyWorld) \<and>
        \<not> r_ok r \<and> r_status r = 0 \<and> \<not> r_skipped r"
  proof -
    have "encPrefixSegment (prefix ?v) = Inr (js ''zz'') \<and>
          encUriSegment (uri ?v) = Inr (js ''http%3A%2F%2Fexample.org%2Fex%23'') \<and>
          (extractLatestVersion exHost (prefix ?v) = Inl (Error (js ''Fetch failed 500'')) \<or>
           extractLatestVersion exHost (prefix ?v) = Inr None)"
      using p q x by simp
    from extractLatestVersion_latest [of _ _ exHost _ "Error (js ''Fetch failed 500'')" ?v
        "js ''zz''" "js ''http%3A%2F%2Fexample.org%2Fex%23''" emptyWorld,
        THEN conjunct2, THEN conjunct2, rule_format, OF this]
    show ?thesis by blast
  qed
  show ?thesis using u f l c p q u' f' x r by (intro conjI)
qed

section \<open>Tiny term files\<close>

lemma definitionalQuads_eq:
  "filter (\<lambda>q. isNamedNodeIri (predicate q) \<and> termValue (predicate q) \<in> set DEF_PREDICATES)
     (getQuads store (Some (NamedNode termIri)) None None None) = definitionalQuads store termIri"
  by (auto simp: definitionalQuads_def getQuads_def matches_def intro: filter_cong)

lemma writeTinyTermFile_cases:
  "writeTinyTermFile lib outRoot kind termIri store w =
     (case encUriSegment termIri of
        Inl e \<Rightarrow> (Inl e, w)
      | Inr seg \<Rightarrow>
          if fileExists w (tinyPath outRoot kind seg) then (Inr (Some (tinyHref kind seg)), w)
          else if definitionalQuads store termIri = [] then (Inr None, w)
          else (Inr (Some (tinyHref kind seg)),
                writeFile w (tinyPath outRoot kind seg)
                  (TextFile (n3write lib (definitionalQuads store termIri)))))"
  by (simp add: writeTinyTermFile_def Let_def tinyPath_def tinyHref_def definitionalQuads_eq
      split: sum.splits)

text \<open>
  C10. When the tiny file of a term is there, \<open>writeTinyTermFile\<close> returns its
  relative address and leaves the world as it is, whatever the store holds (the
  store does not occur in the result). It returns \<open>null\<close> exactly when the file name
  can be formed, the file is not there and the store has no allow-listed quad of the
  term; nothing is written then either.
\<close>

theorem writeTinyTermFile_fast_path:
  "(encUriSegment termIri = Inr seg \<and> fileExists w (tinyPath outRoot kind seg) \<longrightarrow>
      writeTinyTermFile lib outRoot kind termIri store w = (Inr (Some (tinyHref kind seg)), w)) \<and>
   (fst (writeTinyTermFile lib outRoot kind termIri store w) = Inr None \<longleftrightarrow>
      (\<exists>s. encUriSegment termIri = Inr s \<and> \<not> fileExists w (tinyPath outRoot kind s) \<and>
           definitionalQuads store termIri = [])) \<and>
   (fst (writeTinyTermFile lib outRoot kind termIri store w) = Inr None \<longrightarrow>
      snd (writeTinyTermFile lib outRoot kind termIri store w) = w)"
  by (cases "encUriSegment termIri") (auto simp: writeTinyTermFile_cases)

text \<open>
  The tiny file of \<open>ex:Thing\<close> is there and the store is empty: the address comes
  back and the world is the same.
\<close>

theorem writeTinyTermFile_fast_path_witness:
  "encUriSegment exThing = Inr exThingSegment \<and>
   fileExists tinyWorld (tinyPath OUT_ROOT Classes exThingSegment) \<and>
   definitionalQuads [] exThing = [] \<and>
   writeTinyTermFile exHost OUT_ROOT Classes exThing [] tinyWorld =
     (Inr (Some (js ''classes/http%3A%2F%2Fexample.org%2Fex%23Thing.ttl'')), tinyWorld) \<and>
   fst (writeTinyTermFile exHost OUT_ROOT Classes exThing [] emptyWorld) = Inr None \<and>
   snd (writeTinyTermFile exHost OUT_ROOT Classes exThing [] emptyWorld) = emptyWorld"
proof -
  have e: "encUriSegment exThing = Inr exThingSegment" by code_simp
  have x: "fileExists tinyWorld (tinyPath OUT_ROOT Classes exThingSegment)" by code_simp
  have d: "definitionalQuads [] exThing = []" by (simp add: definitionalQuads_def)
  have hr: "tinyHref Classes exThingSegment = js ''classes/http%3A%2F%2Fexample.org%2Fex%23Thing.ttl''"
    by code_simp
  have a: "writeTinyTermFile exHost OUT_ROOT Classes exThing [] tinyWorld =
     (Inr (Some (js ''classes/http%3A%2F%2Fexample.org%2Fex%23Thing.ttl'')), tinyWorld)"
    using writeTinyTermFile_fast_path [of exThing exThingSegment tinyWorld OUT_ROOT Classes exHost "[]"]
      e x hr by simp
  have n: "fst (writeTinyTermFile exHost OUT_ROOT Classes exThing [] emptyWorld) = Inr None"
    by code_simp
  then have s: "snd (writeTinyTermFile exHost OUT_ROOT Classes exThing [] emptyWorld) = emptyWorld"
    using writeTinyTermFile_fast_path [of exThing _ emptyWorld OUT_ROOT Classes exHost "[]"]
    by blast
  show ?thesis using e x d a n s by (intro conjI)
qed

section \<open>The pipeline of one vocabulary\<close>

lemma pathJoin_normal:
  "seg \<noteq> [] \<Longrightarrow> seg \<noteq> js ''.'' \<Longrightarrow> seg \<noteq> js ''..'' \<Longrightarrow> pathJoin p seg = p @ [seg]"
  by (simp add: pathJoin_def)



lemma pathJoin_index_html: "pathJoin p (js ''index.html'') = p @ [js ''index.html'']"
  by (rule pathJoin_normal) (simp_all add: js_eq_iff js_Nil_iff)























section \<open>What a vocabulary's task writes\<close>








section \<open>The cache\<close>









section \<open>Conversion failures\<close>





section \<open>The indexes of a run\<close>




























section \<open>Encoded path segments\<close>

lemma unat_lt: "unat (c :: 16 word) < 65536"
  using unsigned_less [of c, where 'a = nat] by simp

lemma of_nat_unat16: "(of_nat (unat c) :: 16 word) = c"
  by simp

lemma unat_of_nat16: "n < 65536 \<Longrightarrow> unat (of_nat n :: 16 word) = n"
  by (simp add: unat_of_nat)

lemma isHighSurrogate_unat: "isHighSurrogate c \<longleftrightarrow> 55296 \<le> unat c \<and> unat c \<le> 56319"
  by (simp add: isHighSurrogate_def word_le_nat_alt)

lemma isLowSurrogate_unat: "isLowSurrogate c \<longleftrightarrow> 56320 \<le> unat c \<and> unat c \<le> 57343"
  by (simp add: isLowSurrogate_def word_le_nat_alt)

lemma isUnreserved_not_percent: "isUnreserved c \<Longrightarrow> c \<noteq> 37"
  by (auto simp: isUnreserved_def isAlnum_def)

lemma hexVal_hexDigit: "n < 16 \<Longrightarrow> hexVal (hexDigit n) = Some n"
proof -
  assume n: "n < 16"
  have u: "unat (of_nat (48 + n) :: 16 word) = 48 + n" "unat (of_nat (55 + n) :: 16 word) = 55 + n"
    using n by (simp_all only: unat_of_nat16)
  show ?thesis
    using n u
    by (auto simp: hexVal_def hexDigit_def word_le_nat_alt)
qed

lemma octetAt_pct:
  "b < 256 \<Longrightarrow> octetAt (hexDigit (b div 16) # hexDigit (b mod 16) # rest) = Some b"
proof -
  assume b: "b < 256"
  then have "b div 16 < 16" "b mod 16 < 16" by simp_all
  then show ?thesis by (simp add: hexVal_hexDigit)
qed

lemma drop2: "drop 2 (a # b # s) = s"
  by (simp add: numeral_2_eq_2)

lemma drop3: "drop 3 (a # b # c # s) = s"
  by (simp add: numeral_3_eq_3)

lemma continuation_pct:
  "b < 256 \<Longrightarrow>
   continuation (Suc n) (pctOctet b @ s) =
     (case continuation n s of None \<Rightarrow> None | Some bs \<Rightarrow> Some (b # bs))"
  by (simp add: pctOctet_def octetAt_pct drop2 del: octetAt.simps)

lemma continuation_1: "b < 256 \<Longrightarrow> continuation 1 (pctOctet b @ s) = Some [b]"
  using continuation_pct [of b 0 s] by simp

lemma continuation_2:
  "b < 256 \<Longrightarrow> c < 256 \<Longrightarrow> continuation 2 (pctOctet b @ pctOctet c @ s) = Some [b, c]"
  using continuation_pct [of b 1 "pctOctet c @ s"] continuation_1 [of c s]
  by (simp add: numeral_2_eq_2)

lemma continuation_3:
  "b < 256 \<Longrightarrow> c < 256 \<Longrightarrow> d < 256 \<Longrightarrow>
   continuation 3 (pctOctet b @ pctOctet c @ pctOctet d @ s) = Some [b, c, d]"
  using continuation_pct [of b 2 "pctOctet c @ pctOctet d @ s"] continuation_2 [of c d s]
  by (simp add: numeral_3_eq_3)

lemma decode_pct0:
  "b < 128 \<Longrightarrow> decodeURIComponent (pctOctet b @ s) = decodeThen (\<lambda>t. of_nat b # t) s"
proof -
  assume b: "b < 128"
  then have "b < 256" by simp
  then show ?thesis
    using b by (simp add: pctOctet_def octetAt_pct drop2 leadingOnes_def decodeThen_def del: octetAt.simps)
qed

lemma decode_pct_multi:
  assumes b: "b < 256" and n: "leadingOnes b = Suc (Suc k)" "k < 3"
  shows "decodeURIComponent (pctOctet b @ s) =
     (case continuation (Suc k) s of
        None \<Rightarrow> Inl uriMalformed
      | Some bs \<Rightarrow>
          (case utf8decode (b # bs) of
             None \<Rightarrow> Inl uriMalformed
           | Some cp \<Rightarrow> decodeThen (\<lambda>t. utf16 cp @ t) (drop (3 * Suc k) s)))"
proof -
  have d: "drop (5 + 3 * k) (x # y # s) = drop (3 + 3 * k) s" for x y :: "16 word"
    by (simp add: drop_Cons')
  show ?thesis
    using n
    by (simp add: pctOctet_def octetAt_pct [OF b] drop2 d decodeThen_def
        del: continuation.simps octetAt.simps cong: option.case_cong)
qed

lemma split2: "(cp::nat) div 64 * 64 + cp mod 64 = cp"
  by simp

lemma split3: "(cp::nat) div 4096 * 4096 + (cp div 64) mod 64 * 64 + cp mod 64 = cp"
proof -
  define x where "x = cp div 64"
  define q where "q = x div 64"
  define m where "m = x mod 64"
  define l where "l = cp mod 64"
  have a: "cp div 4096 = q"
    using div_mult2_eq [of cp 64 64] by (simp add: q_def x_def)
  have 1: "x = q * 64 + m" by (simp add: q_def m_def)
  have 2: "cp = x * 64 + l" by (simp add: x_def l_def)
  have "cp = (q * 64 + m) * 64 + l" unfolding 1 [symmetric] by (rule 2)
  then have "q * 4096 + m * 64 + l = cp" by (simp add: algebra_simps)
  then show ?thesis unfolding a m_def [symmetric] x_def [symmetric] l_def [symmetric]
    by (simp add: m_def x_def l_def)
qed

lemma split4:
  "(cp::nat) div 262144 * 262144 + (cp div 4096) mod 64 * 4096 + (cp div 64) mod 64 * 64 +
     cp mod 64 = cp"
proof -
  define y where "y = cp div 4096"
  define q where "q = y div 64"
  define m where "m = y mod 64"
  define t where "t = (cp div 64) mod 64 * 64 + cp mod 64"
  have a: "cp div 262144 = q"
    using div_mult2_eq [of cp 4096 64] by (simp add: q_def y_def)
  have 1: "y = q * 64 + m" by (simp add: q_def m_def)
  have 2: "cp = y * 4096 + t" using split3 [of cp] by (simp add: y_def t_def)
  have "cp = (q * 64 + m) * 4096 + t" unfolding 1 [symmetric] by (rule 2)
  then have "q * 262144 + m * 4096 + t = cp" by (simp add: algebra_simps)
  then show ?thesis unfolding a by (simp add: m_def y_def t_def)
qed

lemma drop3_pct: "drop 3 (pctOctet b @ r) = r"
  by (simp add: pctOctet_def drop3)

lemma drop6_pct: "drop 6 (pctOctet b @ pctOctet c @ r) = r"
  by (simp add: pctOctet_def drop_Cons')

lemma drop9_pct: "drop 9 (pctOctet b @ pctOctet c @ pctOctet d @ r) = r"
  by (simp add: pctOctet_def drop_Cons')

lemma pctOctets_1: "pctOctets [a] @ r = pctOctet a @ r"
  by (simp add: pctOctets_def)

lemma pctOctets_2: "pctOctets [a, b] @ r = pctOctet a @ pctOctet b @ r"
  by (simp add: pctOctets_def)

lemma pctOctets_3: "pctOctets [a, b, c] @ r = pctOctet a @ pctOctet b @ pctOctet c @ r"
  by (simp add: pctOctets_def)

lemma pctOctets_4:
  "pctOctets [a, b, c, d] @ r = pctOctet a @ pctOctet b @ pctOctet c @ pctOctet d @ r"
  by (simp add: pctOctets_def)

lemma decode_utf8_1:
  assumes "cp < 128"
  shows "decodeURIComponent (pctOctets (utf8 cp) @ r) = decodeThen (\<lambda>t. of_nat cp # t) r"
  using assms by (simp add: utf8_def pctOctets_1 decode_pct0)

lemma decode_utf8_2:
  assumes "128 \<le> cp" "cp < 2048"
  shows "decodeURIComponent (pctOctets (utf8 cp) @ r) = decodeThen (\<lambda>t. utf16 cp @ t) r"
proof -
  let ?b0 = "192 + cp div 64" and ?b1 = "128 + cp mod 64"
  have b: "?b0 < 256" "?b1 < 256" using assms by simp_all
  have l: "leadingOnes ?b0 = Suc (Suc 0)" using assms by (simp add: leadingOnes_def)
  have u: "utf8 cp = [?b0, ?b1]" using assms by (simp add: utf8_def)
  have c: "continuation (Suc 0) (pctOctet ?b1 @ r) = Some [?b1]"
    using continuation_1 [OF b(2)] by simp
  have d: "utf8decode [?b0, ?b1] = Some cp"
    using assms by (simp add: isContinuationOctet_def scalarFrom_def)
  show ?thesis
    unfolding u pctOctets_2 decode_pct_multi [OF b(1) l, simplified] c
    using d drop3_pct [of ?b1 r] by simp
qed

lemma decode_utf8_3:
  assumes "2048 \<le> cp" "cp < 65536" "\<not> (55296 \<le> cp \<and> cp < 57344)"
  shows "decodeURIComponent (pctOctets (utf8 cp) @ r) = decodeThen (\<lambda>t. utf16 cp @ t) r"
proof -
  let ?b0 = "224 + cp div 4096" and ?b1 = "128 + (cp div 64) mod 64" and ?b2 = "128 + cp mod 64"
  have b: "?b0 < 256" "?b1 < 256" "?b2 < 256" using assms by simp_all
  have l: "leadingOnes ?b0 = Suc (Suc (Suc 0))" using assms by (simp add: leadingOnes_def)
  have u: "utf8 cp = [?b0, ?b1, ?b2]" using assms by (simp add: utf8_def)
  have c: "continuation (Suc (Suc 0)) (pctOctet ?b1 @ pctOctet ?b2 @ r) = Some [?b1, ?b2]"
    using continuation_2 [OF b(2) b(3)] by (simp add: numeral_2_eq_2)
  have "(?b0 - 224) * 4096 + (?b1 - 128) * 64 + (?b2 - 128) = cp"
    using split3 [of cp] by simp
  then have d: "utf8decode [?b0, ?b1, ?b2] = Some cp"
    using assms by (simp add: isContinuationOctet_def scalarFrom_def)
  have dr: "drop (3 * Suc (Suc 0)) (pctOctet ?b1 @ pctOctet ?b2 @ r) = r"
    using drop6_pct [of ?b1 ?b2 r] by simp
  show ?thesis
    unfolding u pctOctets_3 decode_pct_multi [OF b(1) l, simplified] c
    using d dr by simp
qed

lemma decode_utf8_4:
  assumes "65536 \<le> cp" "cp < 1114112"
  shows "decodeURIComponent (pctOctets (utf8 cp) @ r) = decodeThen (\<lambda>t. utf16 cp @ t) r"
proof -
  let ?b0 = "240 + cp div 262144" and ?b1 = "128 + (cp div 4096) mod 64"
    and ?b2 = "128 + (cp div 64) mod 64" and ?b3 = "128 + cp mod 64"
  have b: "?b0 < 256" "?b1 < 256" "?b2 < 256" "?b3 < 256" using assms by simp_all
  have "cp div 262144 < 5" using assms by simp
  then have l: "leadingOnes ?b0 = Suc (Suc (Suc (Suc 0)))" by (simp add: leadingOnes_def)
  have u: "utf8 cp = [?b0, ?b1, ?b2, ?b3]" using assms by (simp add: utf8_def)
  have c: "continuation (Suc (Suc (Suc 0))) (pctOctet ?b1 @ pctOctet ?b2 @ pctOctet ?b3 @ r) =
             Some [?b1, ?b2, ?b3]"
    using continuation_3 [OF b(2) b(3) b(4)] by (simp add: numeral_3_eq_3)
  have "(?b0 - 240) * 262144 + (?b1 - 128) * 4096 + (?b2 - 128) * 64 + (?b3 - 128) = cp"
    using split4 [of cp] by simp
  then have d: "utf8decode [?b0, ?b1, ?b2, ?b3] = Some cp"
    using assms by (simp add: isContinuationOctet_def scalarFrom_def)
  have dr: "drop (3 * Suc (Suc (Suc 0))) (pctOctet ?b1 @ pctOctet ?b2 @ pctOctet ?b3 @ r) = r"
    using drop9_pct [of ?b1 ?b2 ?b3 r] by simp
  show ?thesis
    unfolding u pctOctets_4 decode_pct_multi [OF b(1) l, simplified] c
    using d dr by simp
qed

lemma isUnreserved_unat: "isUnreserved c \<Longrightarrow> unat c < 128"
  by (auto simp: isUnreserved_def isAlnum_def word_le_nat_alt)

lemma isUnreserved_not_surrogate:
  "isUnreserved c \<Longrightarrow> \<not> isHighSurrogate c \<and> \<not> isLowSurrogate c"
  using isUnreserved_unat [of c] by (auto simp: isHighSurrogate_unat isLowSurrogate_unat)

lemma high_not_low: "isHighSurrogate c \<Longrightarrow> \<not> isLowSurrogate c"
  by (auto simp: isHighSurrogate_unat isLowSurrogate_unat)

lemma utf16_bmp: "utf16 (unat c) = [c]"
  using unat_lt [of c] by (simp add: utf16_def)

lemma pairCodePoint_range:
  assumes "isHighSurrogate c" "isLowSurrogate d"
  shows "65536 \<le> pairCodePoint c d \<and> pairCodePoint c d < 1114112"
  using assms by (auto simp: pairCodePoint_def isHighSurrogate_unat isLowSurrogate_unat)

lemma utf16_pair:
  assumes "isHighSurrogate c" "isLowSurrogate d"
  shows "utf16 (pairCodePoint c d) = [c, d]"
proof -
  define a where "a = unat c - 55296"
  define b where "b = unat d - 56320"
  have a: "a < 1024" "unat c = a + 55296"
    using assms(1) by (auto simp: a_def isHighSurrogate_unat)
  have b: "b < 1024" "unat d = b + 56320"
    using assms(2) by (auto simp: b_def isLowSurrogate_unat)
  have p: "pairCodePoint c d = a * 1024 + b + 65536"
    by (simp add: pairCodePoint_def a_def b_def)
  have "(a * 1024 + b) div 1024 = a" "(a * 1024 + b) mod 1024 = b"
    using b(1) by simp_all
  then have "utf16 (pairCodePoint c d) = [of_nat (a + 55296), of_nat (b + 56320)]"
    unfolding p utf16_def by simp
  also have "\<dots> = [of_nat (unat c), of_nat (unat d)]"
    by (simp only: a(2) b(2))
  finally show ?thesis by simp
qed

lemma decodeThen_Inr: "decodeURIComponent r = Inr s \<Longrightarrow> decodeThen f r = Inr (f s)"
  by (simp add: decodeThen_def)

lemma decode_bmp:
  assumes "\<not> isHighSurrogate c" "\<not> isLowSurrogate c" "decodeURIComponent r = Inr s"
  shows "decodeURIComponent (pctOctets (utf8 (unat c)) @ r) = Inr (c # s)"
proof -
  have ns: "\<not> (55296 \<le> unat c \<and> unat c < 57344)"
    using assms(1,2) by (auto simp: isHighSurrogate_unat isLowSurrogate_unat)
  consider "unat c < 128" | "128 \<le> unat c" "unat c < 2048" | "2048 \<le> unat c"
    by linarith
  then show ?thesis
  proof cases
    case 1
    then show ?thesis
      by (simp add: decode_utf8_1 decodeThen_Inr [OF assms(3)])
  next
    case 2
    then show ?thesis
      by (simp add: decode_utf8_2 decodeThen_Inr [OF assms(3)] utf16_bmp)
  next
    case 3
    then show ?thesis
      using unat_lt [of c] ns
      by (simp add: decode_utf8_3 decodeThen_Inr [OF assms(3)] utf16_bmp)
  qed
qed

lemma decode_pair:
  assumes "isHighSurrogate c" "isLowSurrogate d" "decodeURIComponent r = Inr s"
  shows "decodeURIComponent (pctOctets (utf8 (pairCodePoint c d)) @ r) = Inr (c # d # s)"
  using pairCodePoint_range [OF assms(1,2)]
  by (simp add: decode_utf8_4 decodeThen_Inr [OF assms(3)] utf16_pair [OF assms(1,2)])

lemma roundtrip:
  "wellFormed x \<Longrightarrow> \<exists>s. encodeURIComponent x = Inr s \<and> decodeURIComponent s = Inr x"
proof (induction x rule: wellFormed.induct)
  case 1
  show ?case by simp
next
  case (2 c cs)
  show ?case
  proof (cases "isHighSurrogate c")
    case True
    then obtain d ds where cs: "cs = d # ds" and d: "isLowSurrogate d" and wf: "wellFormed ds"
      using "2.prems" by (auto split: list.splits)
    obtain s where s: "encodeURIComponent ds = Inr s" "decodeURIComponent s = Inr ds"
      using "2.IH"(1) [OF True cs wf] by blast
    have nu: "\<not> isUnreserved c" using True isUnreserved_not_surrogate by blast
    have "encodeURIComponent (c # cs) = Inr (pctOctets (utf8 (pairCodePoint c d)) @ s)"
      using True nu d s(1) high_not_low [OF True] by (simp add: cs)
    moreover have "decodeURIComponent (pctOctets (utf8 (pairCodePoint c d)) @ s) = Inr (c # cs)"
      unfolding cs by (rule decode_pair [OF True d s(2)])
    ultimately show ?thesis by blast
  next
    case False
    then have nl: "\<not> isLowSurrogate c" and wf: "wellFormed cs"
      using "2.prems" by simp_all
    obtain s where s: "encodeURIComponent cs = Inr s" "decodeURIComponent s = Inr cs"
      using "2.IH"(2) [OF False wf] by blast
    show ?thesis
    proof (cases "isUnreserved c")
      case True
      then have "encodeURIComponent (c # cs) = Inr (c # s)" using s(1) by simp
      moreover have "decodeURIComponent (c # s) = Inr (c # cs)"
        using isUnreserved_not_percent [OF True] s(2) by simp
      ultimately show ?thesis by blast
    next
      case nu: False
      have "encodeURIComponent (c # cs) = Inr (pctOctets (utf8 (unat c)) @ s)"
        using nu False nl s(1) by simp
      moreover have "decodeURIComponent (pctOctets (utf8 (unat c)) @ s) = Inr (c # cs)"
        by (rule decode_bmp [OF False nl s(2)])
      ultimately show ?thesis by blast
    qed
  qed
qed

lemma encode_wellFormed:
  "(case encodeURIComponent x of Inl e \<Rightarrow> e = uriMalformed \<and> \<not> wellFormed x
    | Inr s \<Rightarrow> wellFormed x)"
proof (induction x rule: wellFormed.induct)
  case 1
  show ?case by simp
next
  case (2 c cs)
  show ?case
  proof (cases "isHighSurrogate c")
    case True
    have nu: "\<not> isUnreserved c" using True isUnreserved_not_surrogate by blast
    show ?thesis
    proof (cases cs)
      case Nil
      then show ?thesis using True nu high_not_low [OF True] by simp
    next
      case (Cons d ds)
      show ?thesis
      proof (cases "isLowSurrogate d")
        case l: True
        show ?thesis
          using "2.IH"(1) [OF True Cons] True nu high_not_low [OF True] l
          by (simp add: Cons split: sum.splits)
      next
        case False
        then show ?thesis using True nu high_not_low [OF True] by (simp add: Cons)
      qed
    qed
  next
    case False
    show ?thesis
    proof (cases "isLowSurrogate c")
      case True
      then show ?thesis using False isUnreserved_not_surrogate [of c] by auto
    next
      case nl: False
      show ?thesis
        using "2.IH"(2) [OF False] False nl
        by (cases "isUnreserved c") (simp_all split: sum.splits)
    qed
  qed
qed

lemma encode_Inr_decode:
  "encodeURIComponent x = Inr s \<Longrightarrow> decodeURIComponent s = Inr x"
  using encode_wellFormed [of x] roundtrip [of x] by auto

text \<open>
  C9. An IRI is a sequence of Unicode characters, so as a JavaScript string it is well
  formed: every surrogate code unit in it is half of a pair. For every well-formed string
  \<open>encUriSegment\<close> gives a segment, and \<open>decodeURIComponent\<close> gives the string back from
  it; so two strings with the same segment, or the same tiny file name, are the same
  string. The strings without a segment are exactly the ill-formed ones, on which
  \<open>encodeURIComponent\<close> throws.
\<close>

theorem encUriSegment_reversible:
  "(wellFormed x \<longrightarrow> (\<exists>s. encUriSegment x = Inr s \<and> decodeURIComponent s = Inr x)) \<and>
   (\<forall>s. encUriSegment x = Inr s \<longrightarrow> decodeURIComponent s = Inr x) \<and>
   (\<forall>s. encUriSegment x = Inr s \<and> encUriSegment y = Inr s \<longrightarrow> x = y) \<and>
   (\<forall>s t. encUriSegment x = Inr s \<and> encUriSegment y = Inr t \<and>
      s @ js ''.ttl'' = t @ js ''.ttl'' \<longrightarrow> x = y) \<and>
   ((\<exists>e. encUriSegment x = Inl e) \<longleftrightarrow> \<not> wellFormed x)"
proof (intro conjI)
  show "wellFormed x \<longrightarrow> (\<exists>s. encUriSegment x = Inr s \<and> decodeURIComponent s = Inr x)"
    using roundtrip [of x] by (simp add: encUriSegment_def)
  show "\<forall>s. encUriSegment x = Inr s \<longrightarrow> decodeURIComponent s = Inr x"
    using encode_Inr_decode [of x] by (simp add: encUriSegment_def)
  show inj: "\<forall>s. encUriSegment x = Inr s \<and> encUriSegment y = Inr s \<longrightarrow> x = y"
    using encode_Inr_decode [of x] encode_Inr_decode [of y] by (auto simp: encUriSegment_def)
  show "\<forall>s t. encUriSegment x = Inr s \<and> encUriSegment y = Inr t \<and>
      s @ js ''.ttl'' = t @ js ''.ttl'' \<longrightarrow> x = y"
    using inj by auto
  show "(\<exists>e. encUriSegment x = Inl e) \<longleftrightarrow> \<not> wellFormed x"
    using encode_wellFormed [of x] by (cases "encodeURIComponent x") (auto simp: encUriSegment_def)
qed

text \<open>
  The IRI of \<open>ex:Thing\<close>, and a string with an accented letter, the euro sign and a
  character outside the basic plane (a surrogate pair): both are well formed, so both
  have a segment that decodes to them; and the IRI whose segment is that of \<open>ex:Thing\<close>
  is \<open>ex:Thing\<close>.
\<close>

theorem encUriSegment_reversible_witness:
  "wellFormed exThing \<and>
   encUriSegment exThing = Inr (js ''http%3A%2F%2Fexample.org%2Fex%23Thing'') \<and>
   decodeURIComponent (js ''http%3A%2F%2Fexample.org%2Fex%23Thing'') = Inr exThing \<and>
   wellFormed [233, 8364, 55357, 56832] \<and>
   (\<exists>s. encUriSegment [233, 8364, 55357, 56832] = Inr s \<and>
        decodeURIComponent s = Inr [233, 8364, 55357, 56832]) \<and>
   encUriSegment [233, 8364, 55357, 56832] = Inr (js ''%C3%A9%E2%82%AC%F0%9F%98%80'') \<and>
   decodeURIComponent (js ''%C3%A9%E2%82%AC%F0%9F%98%80'') = Inr [233, 8364, 55357, 56832] \<and>
   encUriSegment (js ''http://example.org/ex#Thing'') =
     Inr (js ''http%3A%2F%2Fexample.org%2Fex%23Thing'') \<and>
   js ''http://example.org/ex#Thing'' = exThing"
proof -
  have w1: "wellFormed exThing" by code_simp
  have e1: "encUriSegment exThing = Inr (js ''http%3A%2F%2Fexample.org%2Fex%23Thing'')"
    by code_simp
  have e1': "encUriSegment (js ''http://example.org/ex#Thing'') =
      Inr (js ''http%3A%2F%2Fexample.org%2Fex%23Thing'')"
    by code_simp
  have w2: "wellFormed [233, 8364, 55357, 56832]"
    by (simp add: isHighSurrogate_def isLowSurrogate_def)
  have e2: "encUriSegment [233, 8364, 55357, 56832] = Inr (js ''%C3%A9%E2%82%AC%F0%9F%98%80'')"
    by (simp add: encUriSegment_def isUnreserved_def isAlnum_def isHighSurrogate_def
        isLowSurrogate_def pairCodePoint_def utf8_def pctOctets_def pctOctet_def hexDigit_def
        js_def)
  have d1: "decodeURIComponent (js ''http%3A%2F%2Fexample.org%2Fex%23Thing'') = Inr exThing"
    using encUriSegment_reversible [of exThing, THEN conjunct2, THEN conjunct1, rule_format,
        OF e1] .
  have r2: "\<exists>s. encUriSegment [233, 8364, 55357, 56832] = Inr s \<and>
        decodeURIComponent s = Inr [233, 8364, 55357, 56832]"
    using encUriSegment_reversible [of "[233, 8364, 55357, 56832]", THEN conjunct1,
        rule_format, OF w2] .
  have d2: "decodeURIComponent (js ''%C3%A9%E2%82%AC%F0%9F%98%80'') = Inr [233, 8364, 55357, 56832]"
    using r2 e2 by simp
  have "encUriSegment (js ''http://example.org/ex#Thing'') =
          Inr (js ''http%3A%2F%2Fexample.org%2Fex%23Thing'') \<and>
        encUriSegment exThing = Inr (js ''http%3A%2F%2Fexample.org%2Fex%23Thing'')"
    using e1 e1' by simp
  from encUriSegment_reversible [of "js ''http://example.org/ex#Thing''" exThing,
      THEN conjunct2, THEN conjunct2, THEN conjunct1, rule_format, OF this]
  have i: "js ''http://example.org/ex#Thing'' = exThing" .
  show ?thesis using w1 e1 d1 w2 r2 e2 d2 e1' i by (intro conjI)
qed


end
